theory Spec2Isabelle
  imports
    Main
    "HOL-Library.Sublist"
    "HOL-Library.Char_ord"
    "HOL-Library.List_Lexorder"
    "HOL-Library.Word"
begin

section \<open>The portfolio backend (portfolio-docker/main.go)\<close>

text \<open>
  The backend is a set of HTTP handlers over three resources: the table \<open>users\<close> of a
  SQLite database, the directory tree \<open>photos/<category>/\<close>, and signed bearer tokens.
  Each handler is embedded as a function from the request and the state of the server
  (table, directories, and the list of database and file-system calls made so far) to the
  outcome of the request and the new state. One request is handled at one instant \<open>Now\<close>.

  What the handlers call in other packages is embedded at the level of its documented
  contract: the database runs the four queries of the source on a list of rows, the file
  system is a map from directory paths to entry lists, and the two cryptographic
  libraries are symbolic in the style of the theories of HOL/Auth: a bcrypt hash and an
  HMAC tag are free constructors over what they were computed from, so a hash matches only
  the password, and a tag verifies only for the key, the method and the content, it was
  computed from. Database and file-system calls fail only for a reason the state gives (no
  such row, a violated constraint, no such directory), never because the medium fails.

  The router, the CORS middleware with its answer to \<open>OPTIONS\<close>, and the static file
  server stand in front of the handlers and are not embedded: the statements are about
  the handlers and the authentication middleware as \<open>main\<close> composes them. The state
  holds the table and the directories under \<open>photos\<close>; what the login handler prints on
  standard output and the temporary files of the multipart parser are not part of it.
\<close>

subsection \<open>Strings\<close>

text \<open>\<open>strings.HasPrefix\<close>, \<open>strings.TrimPrefix\<close> and \<open>strings.TrimSuffix\<close>.\<close>

definition HasPrefix :: "'a list \<Rightarrow> 'a list \<Rightarrow> bool" where
  "HasPrefix s p = prefix p s"

definition TrimPrefix :: "'a list \<Rightarrow> 'a list \<Rightarrow> 'a list" where
  "TrimPrefix s p = (if HasPrefix s p then drop (length p) s else s)"

definition TrimSuffix :: "'a list \<Rightarrow> 'a list \<Rightarrow> 'a list" where
  "TrimSuffix s x = (if suffix x s then take (length s - length x) s else s)"

text \<open>
  \<open>filepath.Ext\<close>: the loop runs \<open>i\<close> from the last byte down while \<open>path[i]\<close> is not a
  path separator, and returns \<open>path[i:]\<close> at the first dot it meets; the empty string
  otherwise. \<open>Ext_loop\<close> takes the bytes still to scan, last first, and the bytes already
  scanned.
\<close>

fun Ext_loop :: "string \<Rightarrow> string \<Rightarrow> string" where
  "Ext_loop [] scanned = []"
| "Ext_loop (c # rest) scanned =
     (if c = CHR ''/'' then []
      else if c = CHR ''.'' then c # scanned
      else Ext_loop rest (c # scanned))"

definition filepath_Ext :: "string \<Rightarrow> string" where
  "filepath_Ext path = Ext_loop (rev path) []"

text \<open>
  \<open>filepath.Join\<close> of a clean directory path and one element. The handlers join
  \<open>photos\<close> with a category of the fixed set and a category directory with a file name.
\<close>

definition filepath_Join :: "string \<Rightarrow> string \<Rightarrow> string" where
  "filepath_Join dir elem = dir @ ''/'' @ elem"

text \<open>\<open>hex.EncodeToString\<close>: two lower-case digits per byte.\<close>

definition hextable :: string where
  "hextable = ''0123456789abcdef''"

definition hex_EncodeToString :: "8 word list \<Rightarrow> string" where
  "hex_EncodeToString src =
     concat (map (\<lambda>b. [hextable ! (unat b div 16), hextable ! (unat b mod 16)]) src)"

subsection \<open>JSON values and tokens\<close>

text \<open>
  A decoded JSON value of a token's header or claims. Numbers are the integral ones; the
  conversions between \<open>int64\<close> and \<open>float64\<close> that the handlers apply to them are exact
  below \<open>2^53\<close> in magnitude, which covers row ids and Unix seconds.
\<close>

datatype json = JNull | JBool bool | JNumber int | JString string

type_synonym MapClaims = "string \<rightharpoonup> json"

text \<open>
  The signing methods golang-jwt/v5 registers, by their Go types; the string is the
  \<open>alg\<close> name.
\<close>

datatype SigningMethod =
    SigningMethodHMAC string
  | SigningMethodRSA string
  | SigningMethodRSAPSS string
  | SigningMethodECDSA string
  | SigningMethodEd25519
  | SigningMethodNone

definition GetSigningMethod :: "string \<Rightarrow> SigningMethod option" where
  "GetSigningMethod alg =
     (if alg \<in> {''HS256'', ''HS384'', ''HS512''} then Some (SigningMethodHMAC alg)
      else if alg \<in> {''RS256'', ''RS384'', ''RS512''} then Some (SigningMethodRSA alg)
      else if alg \<in> {''PS256'', ''PS384'', ''PS512''} then Some (SigningMethodRSAPSS alg)
      else if alg \<in> {''ES256'', ''ES384'', ''ES512''} then Some (SigningMethodECDSA alg)
      else if alg = ''EdDSA'' then Some SigningMethodEd25519
      else if alg = ''none'' then Some SigningMethodNone
      else None)"

text \<open>
  The third segment of a token: the HMAC tag of a method, a key and the signing string
  (header and claims), or any other bytes.
\<close>

datatype Signature =
    HMAC string string "string \<rightharpoonup> json" MapClaims
  | OtherBytes string

text \<open>The compact serialisation of a token: three segments.\<close>

record JWS =
  jws_Header :: "string \<rightharpoonup> json"
  jws_Claims :: MapClaims
  jws_Signature :: Signature

text \<open>
  Text that may carry a token: a byte, or the compact serialisation of a token as one
  symbol. The \<open>Authorization\<close> header and the \<open>token\<close> field of a response are such texts.
\<close>

datatype sym = Chr char | Compact JWS

type_synonym wire = "sym list"

definition wire_of :: "string \<Rightarrow> wire" where
  "wire_of s = map Chr s"

text \<open>\<open>jwt.Token\<close>.\<close>

record jwt_Token =
  Method :: SigningMethod
  Header :: "string \<rightharpoonup> json"
  Claims :: MapClaims
  Valid :: bool

datatype jwt_error =
    ErrTokenMalformed
  | ErrTokenUnverifiable
  | ErrTokenSignatureInvalid
  | ErrTokenInvalidClaims
  | ErrInvalidKeyType

text \<open>\<open>jwt.New\<close>: a token of the method with empty claims.\<close>

definition alg_name :: "SigningMethod \<Rightarrow> string" where
  "alg_name m =
     (case m of
        SigningMethodHMAC a \<Rightarrow> a
      | SigningMethodRSA a \<Rightarrow> a
      | SigningMethodRSAPSS a \<Rightarrow> a
      | SigningMethodECDSA a \<Rightarrow> a
      | SigningMethodEd25519 \<Rightarrow> ''EdDSA''
      | SigningMethodNone \<Rightarrow> ''none'')"

definition jwt_New :: "SigningMethod \<Rightarrow> jwt_Token" where
  "jwt_New m =
     \<lparr>Method = m,
      Header = [''typ'' \<mapsto> JString ''JWT'', ''alg'' \<mapsto> JString (alg_name m)],
      Claims = Map.empty,
      Valid = False\<rparr>"

text \<open>
  \<open>Sign\<close> and \<open>Verify\<close> of a signing method with a key of type \<open>[]byte\<close>: only the HMAC
  methods take such a key.
\<close>

definition Sign :: "SigningMethod \<Rightarrow> (string \<rightharpoonup> json) \<Rightarrow> MapClaims \<Rightarrow> string \<Rightarrow> jwt_error + Signature" where
  "Sign m h c key =
     (case m of
        SigningMethodHMAC a \<Rightarrow> Inr (HMAC a key h c)
      | _ \<Rightarrow> Inl ErrInvalidKeyType)"

definition Verify :: "SigningMethod \<Rightarrow> (string \<rightharpoonup> json) \<Rightarrow> MapClaims \<Rightarrow> Signature \<Rightarrow> string \<Rightarrow> bool" where
  "Verify m h c sig key =
     (case m of
        SigningMethodHMAC a \<Rightarrow> sig = HMAC a key h c
      | _ \<Rightarrow> False)"

text \<open>\<open>token.SignedString(key)\<close>.\<close>

definition SignedString :: "jwt_Token \<Rightarrow> string \<Rightarrow> jwt_error + wire" where
  "SignedString token key =
     (case Sign (Method token) (Header token) (Claims token) key of
        Inl e \<Rightarrow> Inl e
      | Inr sig \<Rightarrow>
          Inr [Compact \<lparr>jws_Header = Header token, jws_Claims = Claims token,
                        jws_Signature = sig\<rparr>])"

text \<open>
  The claims validation of \<open>jwt.Parse\<close> (golang-jwt/v5, no parser options): \<open>exp\<close> and
  \<open>nbf\<close> are checked when present. \<open>parseNumericDate\<close> reads a claim: absent or the
  number 0 is no date, another number is that many seconds, anything else is an error.
  A token is expired unless \<open>now\<close> is before \<open>exp\<close>, and not yet valid while \<open>now\<close> is
  before \<open>nbf\<close>. Instants are nanoseconds since the Unix epoch.
\<close>

definition second :: int where
  "second = 1000000000"

definition Unix :: "int \<Rightarrow> int" where
  "Unix t = t div second"

definition parseNumericDate :: "MapClaims \<Rightarrow> string \<Rightarrow> jwt_error + int option" where
  "parseNumericDate m key =
     (case m key of
        None \<Rightarrow> Inr None
      | Some (JNumber e) \<Rightarrow> if e = 0 then Inr None else Inr (Some e)
      | Some _ \<Rightarrow> Inl ErrTokenInvalidClaims)"

definition verifyExpiresAt :: "MapClaims \<Rightarrow> int \<Rightarrow> bool" where
  "verifyExpiresAt claims now =
     (case parseNumericDate claims ''exp'' of
        Inl e \<Rightarrow> False
      | Inr None \<Rightarrow> True
      | Inr (Some e) \<Rightarrow> now < e * second)"

definition verifyNotBefore :: "MapClaims \<Rightarrow> int \<Rightarrow> bool" where
  "verifyNotBefore claims now =
     (case parseNumericDate claims ''nbf'' of
        Inl e \<Rightarrow> False
      | Inr None \<Rightarrow> True
      | Inr (Some n) \<Rightarrow> \<not> now < n * second)"

definition Validate :: "MapClaims \<Rightarrow> int \<Rightarrow> bool" where
  "Validate claims now = (verifyExpiresAt claims now \<and> verifyNotBefore claims now)"

text \<open>
  \<open>jwt.Parse(tokenString, keyFunc)\<close> at the instant \<open>now\<close>: split the text into its
  segments, look the method of the header's \<open>alg\<close> up, ask \<open>keyFunc\<close> for the key, verify
  the signature, validate the claims, and only then set \<open>Valid\<close>.
\<close>

definition jwt_Parse ::
  "wire \<Rightarrow> (jwt_Token \<Rightarrow> string + string) \<Rightarrow> int \<Rightarrow> jwt_error + jwt_Token" where
  "jwt_Parse tokenString keyFunc now =
     (case tokenString of
        [Compact j] \<Rightarrow>
          (case jws_Header j ''alg'' of
             Some (JString headerAlg) \<Rightarrow>
               (case GetSigningMethod headerAlg of
                  None \<Rightarrow> Inl ErrTokenUnverifiable
                | Some m \<Rightarrow>
                    (let token = \<lparr>Method = m, Header = jws_Header j, Claims = jws_Claims j,
                                  Valid = False\<rparr>
                     in case keyFunc token of
                          Inl e \<Rightarrow> Inl ErrTokenUnverifiable
                        | Inr key \<Rightarrow>
                            if \<not> Verify m (jws_Header j) (jws_Claims j) (jws_Signature j) key
                            then Inl ErrTokenSignatureInvalid
                            else if \<not> Validate (jws_Claims j) now
                            then Inl ErrTokenInvalidClaims
                            else Inr (token\<lparr>Valid := True\<rparr>)))
           | _ \<Rightarrow> Inl ErrTokenUnverifiable)
      | _ \<Rightarrow> Inl ErrTokenMalformed)"

subsection \<open>bcrypt\<close>

text \<open>
  A stored password: the bcrypt hash of a cost, a salt and a password, or other text.
  \<open>GenerateFromPassword\<close> of golang.org/x/crypto/bcrypt does not accept a password
  longer than 72 bytes, the longest bcrypt operates on, and returns
  \<open>ErrPasswordTooLong\<close> for one; the salt is 16 bytes of \<open>crypto/rand\<close>.
  \<open>CompareHashAndPassword\<close> fails on text that is no hash and on a password other than
  the hashed one.
\<close>

datatype hashed = Bcrypt nat "8 word list" string | NotAHash string

datatype bcrypt_error = ErrPasswordTooLong | ErrMismatchedHashAndPassword | ErrHashTooShort

definition DefaultCost :: nat where
  "DefaultCost = 10"

definition GenerateFromPassword :: "8 word list \<Rightarrow> string \<Rightarrow> nat \<Rightarrow> bcrypt_error + hashed" where
  "GenerateFromPassword salt password cost =
     (if length password > 72 then Inl ErrPasswordTooLong
      else Inr (Bcrypt cost salt password))"

definition CompareHashAndPassword :: "hashed \<Rightarrow> string \<Rightarrow> bcrypt_error + unit" where
  "CompareHashAndPassword hashedPassword password =
     (case hashedPassword of
        NotAHash s \<Rightarrow> Inl ErrHashTooShort
      | Bcrypt cost salt p \<Rightarrow>
          if p = password then Inr () else Inl ErrMismatchedHashAndPassword)"

subsection \<open>The state of the server\<close>

text \<open>A row of the table \<open>users\<close> (columns id, name, email, password, created_at).\<close>

record db_User =
  user_ID :: int
  user_Name :: string
  user_Email :: string
  user_Password :: hashed
  user_CreatedAt :: int

record CreateUserParams =
  param_Name :: string
  param_Email :: string
  param_Password :: hashed

text \<open>
  An entry of a directory, as \<open>os.ReadDir\<close> and \<open>Info\<close> give it: name, whether it is a
  directory, modification time, and the bytes of a regular file.
\<close>

record DirEntry =
  entry_Name :: string
  entry_IsDir :: bool
  entry_ModTime :: int
  entry_Data :: "8 word list"

text \<open>The calls the handlers make on the database and on the file system.\<close>

datatype Call =
    CheckEmailExistsCall string
  | CreateUserCall string
  | GetUserByEmailCall string
  | GetUserByIDCall int
  | ReadDirCall string
  | CreateCall string string
  | CopyCall string string
  | RemoveCall string string

text \<open>
  The state: the rows of \<open>users\<close> in insertion order, the largest id the table ever
  assigned (SQLite's \<open>AUTOINCREMENT\<close>), the directories by path, each with its entries in
  the order \<open>os.ReadDir\<close> returns them (sorted by file name), and the calls made so far,
  the latest last.
\<close>

record World =
  users :: "db_User list"
  sqlite_sequence :: int
  dirs :: "string \<rightharpoonup> DirEntry list"
  calls :: "Call list"

definition called :: "Call \<Rightarrow> World \<Rightarrow> World" where
  "called c w = w\<lparr>calls := calls w @ [c]\<rparr>"

text \<open>
  What a handler reads besides the request and the state: the signing key (the global
  \<open>jwtKey\<close>), the clock, the bytes \<open>crypto/rand\<close> delivers, and the layout
  \<open>time.RFC3339\<close> in the server's time zone.
\<close>

record Env =
  jwtKey :: string
  Now :: int
  Rand :: "nat \<Rightarrow> 8 word"
  RFC3339 :: "int \<Rightarrow> string"

subsection \<open>The queries (db/sqlc, from the SQL of the source)\<close>

datatype db_error = ErrNoRows | ErrConstraintUnique

text \<open>\<open>SELECT EXISTS(SELECT 1 FROM users WHERE email = ?)\<close>\<close>

definition CheckEmailExists :: "string \<Rightarrow> World \<Rightarrow> (db_error + int) \<times> World" where
  "CheckEmailExists email w =
     (Inr (if \<exists>u \<in> set (users w). user_Email u = email then 1 else 0),
      called (CheckEmailExistsCall email) w)"

text \<open>
  \<open>INSERT INTO users (name, email, password) VALUES (?, ?, ?) RETURNING ...\<close>: the
  column \<open>email\<close> is \<open>UNIQUE\<close>, the id is one more than the largest id the table ever
  held, \<open>created_at\<close> defaults to the current time.
\<close>

definition CreateUser :: "Env \<Rightarrow> CreateUserParams \<Rightarrow> World \<Rightarrow> (db_error + db_User) \<times> World" where
  "CreateUser env arg w =
     (let w1 = called (CreateUserCall (param_Email arg)) w in
      if \<exists>u \<in> set (users w). user_Email u = param_Email arg then (Inl ErrConstraintUnique, w1)
      else
        (let row = \<lparr>user_ID = fold max (map user_ID (users w)) (sqlite_sequence w) + 1,
                    user_Name = param_Name arg,
                    user_Email = param_Email arg,
                    user_Password = param_Password arg,
                    user_CreatedAt = Now env\<rparr>
         in (Inr row, w1\<lparr>users := users w @ [row], sqlite_sequence := user_ID row\<rparr>)))"

text \<open>\<open>SELECT id, name, email, password FROM users WHERE email = ? LIMIT 1\<close>\<close>

definition GetUserByEmail :: "string \<Rightarrow> World \<Rightarrow> (db_error + db_User) \<times> World" where
  "GetUserByEmail email w =
     (case find (\<lambda>u. user_Email u = email) (users w) of
        None \<Rightarrow> Inl ErrNoRows
      | Some u \<Rightarrow> Inr u,
      called (GetUserByEmailCall email) w)"

text \<open>\<open>SELECT id, name, email FROM users WHERE id = ? LIMIT 1\<close>\<close>

definition GetUserByID :: "int \<Rightarrow> World \<Rightarrow> (db_error + db_User) \<times> World" where
  "GetUserByID i w =
     (case find (\<lambda>u. user_ID u = i) (users w) of
        None \<Rightarrow> Inl ErrNoRows
      | Some u \<Rightarrow> Inr u,
      called (GetUserByIDCall i) w)"

subsection \<open>The file system calls\<close>

datatype os_error = ErrNotExist | ErrIsDir

text \<open>\<open>os.ReadDir\<close>: the entries of a directory, sorted by file name.\<close>

definition os_ReadDir :: "string \<Rightarrow> World \<Rightarrow> (os_error + DirEntry list) \<times> World" where
  "os_ReadDir dir w =
     (case dirs w dir of
        None \<Rightarrow> Inl ErrNotExist
      | Some files \<Rightarrow> Inr files,
      called (ReadDirCall dir) w)"

text \<open>
  \<open>os.Create\<close> of the path \<open>dir/name\<close>: creates the file, or truncates the file of that
  name; fails when the directory does not exist or the name is a directory's.
\<close>

definition os_Create :: "Env \<Rightarrow> string \<Rightarrow> string \<Rightarrow> World \<Rightarrow> (os_error + string \<times> string) \<times> World" where
  "os_Create env dir name w =
     (let w1 = called (CreateCall dir name) w in
      case dirs w dir of
        None \<Rightarrow> (Inl ErrNotExist, w1)
      | Some files \<Rightarrow>
          if \<exists>e \<in> set files. entry_Name e = name \<and> entry_IsDir e then (Inl ErrIsDir, w1)
          else
            (let file = \<lparr>entry_Name = name, entry_IsDir = False, entry_ModTime = Now env,
                         entry_Data = []\<rparr>;
                 files' = insort_key entry_Name file (filter (\<lambda>e. entry_Name e \<noteq> name) files)
             in (Inr (dir, name), w1\<lparr>dirs := (dirs w)(dir \<mapsto> files')\<rparr>)))"

text \<open>\<open>io.Copy\<close> of the uploaded bytes into the file just created.\<close>

definition io_Copy :: "Env \<Rightarrow> string \<times> string \<Rightarrow> 8 word list \<Rightarrow> World \<Rightarrow> (os_error + nat) \<times> World" where
  "io_Copy env dest src w =
     (let w1 = called (CopyCall (fst dest) (snd dest)) w in
      case dirs w (fst dest) of
        None \<Rightarrow> (Inl ErrNotExist, w1)
      | Some files \<Rightarrow>
          (Inr (length src),
           w1\<lparr>dirs := (dirs w)(fst dest \<mapsto>
                 map (\<lambda>e. if entry_Name e = snd dest \<and> \<not> entry_IsDir e
                          then e\<lparr>entry_Data := src, entry_ModTime := Now env\<rparr> else e) files)\<rparr>))"

text \<open>
  \<open>os.Remove\<close> of the path \<open>dir/name\<close>: removes the regular file of that name. The
  handler calls it on a regular file only; the contents of sub-directories are not part
  of the state, and removing one is refused.
\<close>

definition os_Remove :: "string \<times> string \<Rightarrow> World \<Rightarrow> (os_error + unit) \<times> World" where
  "os_Remove path w =
     (let w1 = called (RemoveCall (fst path) (snd path)) w in
      case dirs w (fst path) of
        None \<Rightarrow> (Inl ErrNotExist, w1)
      | Some files \<Rightarrow>
          if \<exists>e \<in> set files. entry_Name e = snd path \<and> \<not> entry_IsDir e
          then (Inr (), w1\<lparr>dirs := (dirs w)(fst path \<mapsto>
                                filter (\<lambda>e. entry_Name e \<noteq> snd path) files)\<rparr>)
          else if \<exists>e \<in> set files. entry_Name e = snd path then (Inl ErrIsDir, w1)
          else (Inl ErrNotExist, w1))"

subsection \<open>Requests and responses\<close>

text \<open>The JSON body of a registration or login (\<open>Credentials\<close>); a missing field is empty.\<close>

record Credentials =
  creds_Name :: string
  creds_Email :: string
  creds_Password :: string

text \<open>The file part \<open>photo\<close> of a multipart form, and the form.\<close>

record FilePart =
  part_Filename :: string
  part_ContentType :: string
  part_Bytes :: "8 word list"

record Form =
  form_title :: string
  form_category :: string
  form_photo :: "FilePart option"

text \<open>
  What the handlers read of a request: the \<open>Authorization\<close> header, host and scheme, the
  body decoded as \<open>Credentials\<close> (\<open>None\<close> when the decoder fails), the multipart form
  (\<open>None\<close> when \<open>ParseMultipartForm\<close> fails), the variables of the route, and the value
  \<open>userID\<close> of the request's context.
\<close>

record Request =
  req_Authorization :: wire
  req_Host :: string
  req_TLS :: bool
  req_Body :: "Credentials option"
  req_Form :: "Form option"
  req_Vars :: "string \<rightharpoonup> string"
  req_userID :: "int option"

record UserResponse =
  ur_ID :: int
  ur_Name :: string
  ur_Email :: string

record PhotoResponse =
  photo_ID :: string
  photo_Filename :: string
  photo_Title :: string
  photo_Category :: string
  photo_URL :: string
  photo_UploadDate :: string

datatype Payload = NoData | Photo PhotoResponse | Photos "PhotoResponse list"

record Response =
  Success :: bool
  Message :: string
  Token :: wire
  User :: "UserResponse option"
  Data :: Payload

text \<open>
  A request ends with a status code and a response envelope, or with a panic of the
  handler's goroutine, which writes no response.
\<close>

datatype Outcome = Responded (status: nat) (response: Response) | Panicked

type_synonym Handler = "Request \<Rightarrow> World \<Rightarrow> Outcome \<times> World"

text \<open>
  \<open>respondWithJSON\<close> and \<open>respondWithError\<close>. \<open>json.Marshal\<close> does not fail on a
  \<open>Response\<close> (strings, numbers, and records of them), so the status written is \<open>code\<close>.
\<close>

definition respondWithJSON :: "nat \<Rightarrow> Response \<Rightarrow> Outcome" where
  "respondWithJSON code payload = Responded code payload"

definition respondWithError :: "nat \<Rightarrow> string \<Rightarrow> Outcome" where
  "respondWithError code message =
     respondWithJSON code
       \<lparr>Success = False, Message = message, Token = [], User = None, Data = NoData\<rparr>"

text \<open>A Go map read at a key: the zero value when the key is absent.\<close>

definition lookup_string :: "(string \<rightharpoonup> string) \<Rightarrow> string \<Rightarrow> string" where
  "lookup_string m k = (case m k of None \<Rightarrow> [] | Some v \<Rightarrow> v)"

subsection \<open>Registration, login, profile\<close>

definition registerHandler :: "Env \<Rightarrow> Handler" where
  "registerHandler env r w =
     (case req_Body r of
        None \<Rightarrow> (respondWithError 400 ''Invalid request payload'', w)
      | Some creds \<Rightarrow>
          if creds_Name creds = [] \<or> creds_Email creds = [] \<or> creds_Password creds = []
          then (respondWithError 400 ''Name, email, and password are required'', w)
          else
            (case CheckEmailExists (creds_Email creds) w of
               (Inl err, w1) \<Rightarrow> (respondWithError 500 ''Database error'', w1)
             | (Inr emailExists, w1) \<Rightarrow>
                 if emailExists = 1 then (respondWithError 409 ''Email already in use'', w1)
                 else
                   (case GenerateFromPassword (map (Rand env) [0..<16]) (creds_Password creds)
                           DefaultCost of
                      Inl err \<Rightarrow> (respondWithError 500 ''Error hashing password'', w1)
                    | Inr hashedPassword \<Rightarrow>
                        (let params = \<lparr>param_Name = creds_Name creds,
                                       param_Email = creds_Email creds,
                                       param_Password = hashedPassword\<rparr>
                         in case CreateUser env params w1 of
                              (Inl err, w2) \<Rightarrow> (respondWithError 500 ''Error creating user'', w2)
                            | (Inr created, w2) \<Rightarrow>
                                (respondWithJSON 201
                                   \<lparr>Success = True, Message = ''User registered successfully'',
                                    Token = [], User = None, Data = NoData\<rparr>, w2)))))"

definition hour :: int where
  "hour = 3600 * second"

definition generateJWT :: "Env \<Rightarrow> db_User \<Rightarrow> jwt_error + wire" where
  "generateJWT env user =
     (let token = jwt_New (SigningMethodHMAC ''HS256'');
          claims = (Claims token)
            (''user_id'' \<mapsto> JNumber (user_ID user),
             ''email'' \<mapsto> JString (user_Email user),
             ''exp'' \<mapsto> JNumber (Unix (Now env + hour * 24)))
      in SignedString (token\<lparr>Claims := claims\<rparr>) (jwtKey env))"

definition loginHandler :: "Env \<Rightarrow> Handler" where
  "loginHandler env r w =
     (case req_Body r of
        None \<Rightarrow> (respondWithError 400 ''Invalid request payload'', w)
      | Some creds \<Rightarrow>
          if creds_Email creds = [] \<or> creds_Password creds = []
          then (respondWithError 400 ''Email and password are required'', w)
          else
            (case GetUserByEmail (creds_Email creds) w of
               (Inl err, w1) \<Rightarrow> (respondWithError 401 ''Invalid email or password'', w1)
             | (Inr user, w1) \<Rightarrow>
                 (case CompareHashAndPassword (user_Password user) (creds_Password creds) of
                    Inl err \<Rightarrow> (respondWithError 401 ''Invalid email or password'', w1)
                  | Inr ok \<Rightarrow>
                      (let userForJWT = \<lparr>user_ID = user_ID user, user_Name = user_Name user,
                                         user_Email = user_Email user,
                                         user_Password = NotAHash [], user_CreatedAt = 0\<rparr>
                       in case generateJWT env userForJWT of
                            Inl err \<Rightarrow> (respondWithError 500 ''Error generating token'', w1)
                          | Inr token \<Rightarrow>
                              (respondWithJSON 200
                                 \<lparr>Success = True, Message = [], Token = token,
                                  User = Some \<lparr>ur_ID = user_ID user, ur_Name = user_Name user,
                                               ur_Email = user_Email user\<rparr>,
                                  Data = NoData\<rparr>, w1)))))"

definition profileHandler :: "Env \<Rightarrow> Handler" where
  "profileHandler env r w =
     (case req_userID r of
        None \<Rightarrow> (Panicked, w)
      | Some userID \<Rightarrow>
          (case GetUserByID userID w of
             (Inl err, w1) \<Rightarrow> (respondWithError 404 ''User not found'', w1)
           | (Inr user, w1) \<Rightarrow>
               (respondWithJSON 200
                  \<lparr>Success = True, Message = [], Token = [],
                   User = Some \<lparr>ur_ID = user_ID user, ur_Name = user_Name user,
                                ur_Email = user_Email user\<rparr>,
                   Data = NoData\<rparr>, w1)))"

subsection \<open>The authentication middleware\<close>

text \<open>The key function the middleware gives \<open>jwt.Parse\<close>: the key for an HMAC method only.\<close>

definition keyFunc :: "string \<Rightarrow> jwt_Token \<Rightarrow> string + string" where
  "keyFunc key token =
     (case Method token of
        SigningMethodHMAC a \<Rightarrow> Inr key
      | _ \<Rightarrow> Inl ''unexpected signing method'')"

definition bearer :: wire where
  "bearer = wire_of ''Bearer ''"

definition authMiddleware :: "Env \<Rightarrow> Handler \<Rightarrow> Handler" where
  "authMiddleware env next r w =
     (let authHeader = req_Authorization r in
      if authHeader = [] then (respondWithError 401 ''Authorization header required'', w)
      else if \<not> HasPrefix authHeader bearer
      then (respondWithError 401 ''Invalid authorization format'', w)
      else
        (let tokenString = TrimPrefix authHeader bearer in
         case jwt_Parse tokenString (keyFunc (jwtKey env)) (Now env) of
           Inl err \<Rightarrow> (respondWithError 401 ''Invalid token'', w)
         | Inr token \<Rightarrow>
             if Valid token then
               (if (case Claims token ''exp'' of
                      Some (JNumber exp) \<Rightarrow> Unix (Now env) > exp
                    | _ \<Rightarrow> False)
                then (respondWithError 401 ''Token expired'', w)
                else
                  (case Claims token ''user_id'' of
                     Some (JNumber userID) \<Rightarrow> next (r\<lparr>req_userID := Some userID\<rparr>) w
                   | _ \<Rightarrow> (Panicked, w)))
             else (respondWithError 401 ''Invalid token'', w)))"

subsection \<open>Photos\<close>

text \<open>The map \<open>validCategories\<close> of the upload and listing handlers, read at a key.\<close>

definition validCategories :: "string \<Rightarrow> bool" where
  "validCategories category =
     (case [''featured'' \<mapsto> True, ''digital-sketches'' \<mapsto> True,
            ''notebook-sketches'' \<mapsto> True, ''photography'' \<mapsto> True] category of
        None \<Rightarrow> False
      | Some b \<Rightarrow> b)"

definition generateID :: "Env \<Rightarrow> string" where
  "generateID env = hex_EncodeToString (map (Rand env) [0..<16])"

definition scheme_of :: "Request \<Rightarrow> string" where
  "scheme_of r = (if req_TLS r then ''https'' else ''http'')"

definition photoURL :: "string \<Rightarrow> string \<Rightarrow> string \<Rightarrow> string \<Rightarrow> string" where
  "photoURL scheme host category filename =
     scheme @ ''://'' @ host @ ''/photos/'' @ category @ ''/'' @ filename"

definition uploadPhotoHandler :: "Env \<Rightarrow> Handler" where
  "uploadPhotoHandler env r w =
     (case req_Form r of
        None \<Rightarrow> (respondWithError 400 ''Failed to parse form'', w)
      | Some form \<Rightarrow>
          (let title = form_title form; category = form_category form in
           if \<not> validCategories category then (respondWithError 400 ''Invalid category'', w)
           else
             (case form_photo form of
                None \<Rightarrow> (respondWithError 400 ''Failed to get file from form'', w)
              | Some handler \<Rightarrow>
                  (let contentType = part_ContentType handler in
                   if \<not> HasPrefix contentType ''image/''
                   then (respondWithError 400 ''File must be an image'', w)
                   else
                     (let fileExt = filepath_Ext (part_Filename handler);
                          photoID = generateID env;
                          filename = photoID @ fileExt;
                          categoryDir = filepath_Join ''photos'' category
                      in case os_Create env categoryDir filename w of
                           (Inl err, w1) \<Rightarrow>
                             (respondWithError 500 ''Failed to create destination file'', w1)
                         | (Inr dest, w1) \<Rightarrow>
                             (case io_Copy env dest (part_Bytes handler) w1 of
                                (Inl err, w2) \<Rightarrow>
                                  (respondWithError 500 ''Failed to save file'', w2)
                              | (Inr n, w2) \<Rightarrow>
                                  (respondWithJSON 201
                                     \<lparr>Success = True,
                                      Message = ''Photo uploaded successfully'',
                                      Token = [], User = None,
                                      Data = Photo
                                        \<lparr>photo_ID = photoID,
                                         photo_Filename = filename,
                                         photo_Title = title,
                                         photo_Category = category,
                                         photo_URL =
                                           photoURL (scheme_of r) (req_Host r) category filename,
                                         photo_UploadDate = RFC3339 env (Now env)\<rparr>\<rparr>,
                                   w2)))))))"

text \<open>
  The loop of the listing handler over the entries of the category directory. \<open>Info\<close>
  of an entry fails only when the file vanished after \<open>ReadDir\<close>, which does not happen
  within one request.
\<close>

fun listPhotos :: "Env \<Rightarrow> string \<Rightarrow> string \<Rightarrow> string \<Rightarrow> DirEntry list \<Rightarrow> PhotoResponse list" where
  "listPhotos env scheme host category [] = []"
| "listPhotos env scheme host category (file # files) =
     (if entry_IsDir file then listPhotos env scheme host category files
      else
        (let filename = entry_Name file;
             fileExt = filepath_Ext filename;
             photoID = TrimSuffix filename fileExt
         in \<lparr>photo_ID = photoID,
             photo_Filename = filename,
             photo_Title = TrimSuffix filename fileExt,
             photo_Category = category,
             photo_URL = photoURL scheme host category filename,
             photo_UploadDate = RFC3339 env (entry_ModTime file)\<rparr>
            # listPhotos env scheme host category files))"

definition getPhotosByCategoryHandler :: "Env \<Rightarrow> Handler" where
  "getPhotosByCategoryHandler env r w =
     (let category = lookup_string (req_Vars r) ''category'' in
      if \<not> validCategories category then (respondWithError 400 ''Invalid category'', w)
      else
        (let categoryDir = filepath_Join ''photos'' category in
         case os_ReadDir categoryDir w of
           (Inl err, w1) \<Rightarrow> (respondWithError 500 ''Failed to read directory'', w1)
         | (Inr files, w1) \<Rightarrow>
             (respondWithJSON 200
                \<lparr>Success = True, Message = [], Token = [], User = None,
                 Data = Photos (listPhotos env (scheme_of r) (req_Host r) category files)\<rparr>,
              w1)))"

text \<open>
  The two loops of the delete handler: over the entries of one directory, and over the
  categories. \<open>foundPath\<close> is \<open>None\<close> while it is the empty string.
\<close>

fun findInFiles :: "string \<Rightarrow> string \<Rightarrow> DirEntry list \<Rightarrow> (string \<times> string) option" where
  "findInFiles categoryDir photoID [] = None"
| "findInFiles categoryDir photoID (file # files) =
     (if entry_IsDir file then findInFiles categoryDir photoID files
      else
        (let filename = entry_Name file;
             fileExt = filepath_Ext filename;
             ident = TrimSuffix filename fileExt
         in if ident = photoID then Some (categoryDir, filename)
            else findInFiles categoryDir photoID files))"

fun findInCategories :: "string \<Rightarrow> string list \<Rightarrow> World \<Rightarrow> (string \<times> string) option \<times> World" where
  "findInCategories photoID [] w = (None, w)"
| "findInCategories photoID (category # categories) w =
     (let categoryDir = filepath_Join ''photos'' category in
      case os_ReadDir categoryDir w of
        (Inl err, w1) \<Rightarrow> findInCategories photoID categories w1
      | (Inr files, w1) \<Rightarrow>
          (case findInFiles categoryDir photoID files of
             Some foundPath \<Rightarrow> (Some foundPath, w1)
           | None \<Rightarrow> findInCategories photoID categories w1))"

definition categories :: "string list" where
  "categories = [''featured'', ''digital-sketches'', ''notebook-sketches'', ''photography'']"

definition deletePhotoHandler :: "Env \<Rightarrow> Handler" where
  "deletePhotoHandler env r w =
     (let photoID = lookup_string (req_Vars r) ''id'' in
      case findInCategories photoID categories w of
        (None, w1) \<Rightarrow> (respondWithError 404 ''Photo not found'', w1)
      | (Some foundPath, w1) \<Rightarrow>
          (case os_Remove foundPath w1 of
             (Inl err, w2) \<Rightarrow> (respondWithError 500 ''Failed to delete photo'', w2)
           | (Inr ok, w2) \<Rightarrow>
               (respondWithJSON 200
                  \<lparr>Success = True, Message = ''Photo deleted successfully'',
                   Token = [], User = None, Data = NoData\<rparr>, w2)))"

subsection \<open>Notions of the statements\<close>

text \<open>
  The definitions of this subsection are not part of the program: they name what the
  statements below say about it.
\<close>

text \<open>A string without a dot and without a path separator.\<close>

definition plain :: "string \<Rightarrow> bool" where
  "plain s = (CHR ''.'' \<notin> set s \<and> CHR ''/'' \<notin> set s)"

text \<open>The file name minus its extension, as the listing and the delete handler compute it.\<close>

definition stem :: "string \<Rightarrow> string" where
  "stem filename = TrimSuffix filename (filepath_Ext filename)"

text \<open>The \<open>alg\<close> names of the HMAC methods, and the messages of the middleware's refusals.\<close>

definition hmac_algs :: "string set" where
  "hmac_algs = {''HS256'', ''HS384'', ''HS512''}"


text \<open>Header and claims of the token that \<open>generateJWT\<close> signs for a user.\<close>

definition issued_header :: "string \<rightharpoonup> json" where
  "issued_header = [''typ'' \<mapsto> JString ''JWT'', ''alg'' \<mapsto> JString ''HS256'']"

definition issued_claims :: "Env \<Rightarrow> db_User \<Rightarrow> MapClaims" where
  "issued_claims env user =
     [''user_id'' \<mapsto> JNumber (user_ID user), ''email'' \<mapsto> JString (user_Email user),
      ''exp'' \<mapsto> JNumber (Unix (Now env + hour * 24))]"

text \<open>The envelopes of a successful registration and of a successful delete.\<close>

definition registered :: Response where
  "registered = \<lparr>Success = True, Message = ''User registered successfully'', Token = [],
     User = None, Data = NoData\<rparr>"

definition deleted :: Response where
  "deleted = \<lparr>Success = True, Message = ''Photo deleted successfully'', Token = [], User = None,
     Data = NoData\<rparr>"

text \<open>The closed set of categories.\<close>

definition valid_names :: "string set" where
  "valid_names = {''featured'', ''digital-sketches'', ''notebook-sketches'', ''photography''}"

text \<open>The record a listing of \<open>category\<close> holds for a directory entry.\<close>

definition listed :: "Env \<Rightarrow> Request \<Rightarrow> string \<Rightarrow> DirEntry \<Rightarrow> PhotoResponse" where
  "listed env r category e =
     \<lparr>photo_ID = stem (entry_Name e),
      photo_Filename = entry_Name e,
      photo_Title = stem (entry_Name e),
      photo_Category = category,
      photo_URL = photoURL (scheme_of r) (req_Host r) category (entry_Name e),
      photo_UploadDate = RFC3339 env (entry_ModTime e)\<rparr>"

text \<open>
  The regular files of a category directory whose stem is \<open>photoID\<close>, in the order of
  the directory's listing; and a directory tree without the entries of one name in one
  directory.
\<close>

definition matching :: "string \<Rightarrow> World \<Rightarrow> string \<Rightarrow> DirEntry list" where
  "matching photoID w category =
     (case dirs w (filepath_Join ''photos'' category) of
        None \<Rightarrow> []
      | Some files \<Rightarrow> filter (\<lambda>e. \<not> entry_IsDir e \<and> stem (entry_Name e) = photoID) files)"

definition without :: "string \<Rightarrow> string \<Rightarrow> (string \<rightharpoonup> DirEntry list) \<Rightarrow> (string \<rightharpoonup> DirEntry list)" where
  "without dir name ds =
     (\<lambda>d. if d = dir then map_option (filter (\<lambda>e. entry_Name e \<noteq> name)) (ds d) else ds d)"

subsection \<open>Example inputs\<close>

text \<open>
  A server, a request without header, body, form or variables, the state after start-up
  with its four empty category directories, and what the instances below add to them.
\<close>

definition example_env :: Env where
  "example_env =
     \<lparr>jwtKey = ''server-secret'', Now = 1700000000 * second, Rand = (\<lambda>i. 0),
      RFC3339 = (\<lambda>t. ''2023-11-14T22:13:20Z'')\<rparr>"

definition example_request :: Request where
  "example_request =
     \<lparr>req_Authorization = [], req_Host = ''localhost:8080'', req_TLS = False,
      req_Body = None, req_Form = None, req_Vars = Map.empty, req_userID = None\<rparr>"

definition example_world :: World where
  "example_world =
     \<lparr>users = [], sqlite_sequence = 0,
      dirs = [''photos/featured'' \<mapsto> [], ''photos/digital-sketches'' \<mapsto> [],
              ''photos/notebook-sketches'' \<mapsto> [], ''photos/photography'' \<mapsto> []],
      calls = []\<rparr>"

definition example_creds :: Credentials where
  "example_creds = \<lparr>creds_Name = ''A'', creds_Email = ''a@x.com'', creds_Password = ''pw''\<rparr>"

definition long_creds :: Credentials where
  "long_creds =
     \<lparr>creds_Name = ''A'', creds_Email = ''a@x.com'', creds_Password = replicate 73 CHR ''p''\<rparr>"

definition example_user :: db_User where
  "example_user =
     \<lparr>user_ID = 1, user_Name = ''A'', user_Email = ''a@x.com'',
      user_Password = Bcrypt 10 [] ''pw'', user_CreatedAt = 0\<rparr>"

definition world_with_user :: World where
  "world_with_user = example_world\<lparr>users := [example_user], sqlite_sequence := 1\<rparr>"

definition example_token :: JWS where
  "example_token =
     \<lparr>jws_Header = issued_header, jws_Claims = issued_claims example_env example_user,
      jws_Signature =
        HMAC ''HS256'' ''server-secret'' issued_header (issued_claims example_env example_user)\<rparr>"

definition login_response :: Response where
  "login_response =
     \<lparr>Success = True, Message = [], Token = [Compact example_token],
      User = Some \<lparr>ur_ID = 1, ur_Name = ''A'', ur_Email = ''a@x.com''\<rparr>, Data = NoData\<rparr>"


definition anonymous_token :: JWS where
  "anonymous_token =
     \<lparr>jws_Header = issued_header, jws_Claims = [''exp'' \<mapsto> JNumber 1800000000],
      jws_Signature =
        HMAC ''HS256'' ''server-secret'' issued_header [''exp'' \<mapsto> JNumber 1800000000]\<rparr>"

definition early_env :: Env where
  "early_env = example_env\<lparr>Now := 1700000000 * second + 500000000\<rparr>"

definition late_env :: Env where
  "late_env = example_env\<lparr>Now := 1700086400 * second + 200000000\<rparr>"

definition example_form :: Form where
  "example_form =
     \<lparr>form_title = ''Sunset'', form_category = ''photography'',
      form_photo = Some \<lparr>part_Filename = ''sunset.jpg'', part_ContentType = ''image/jpeg'',
                         part_Bytes = [255, 216]\<rparr>\<rparr>"

definition text_form :: Form where
  "text_form =
     \<lparr>form_title = ''Notes'', form_category = ''photography'',
      form_photo = Some \<lparr>part_Filename = ''notes.txt'', part_ContentType = ''text/plain'',
                         part_Bytes = [104, 105]\<rparr>\<rparr>"

definition example_file :: "string \<Rightarrow> DirEntry" where
  "example_file name =
     \<lparr>entry_Name = name, entry_IsDir = False, entry_ModTime = 1700000000 * second,
      entry_Data = []\<rparr>"

definition gallery_world :: World where
  "gallery_world =
     example_world\<lparr>dirs := (dirs example_world)
       (''photos/photography'' \<mapsto>
          [example_file ''0a.jpg'',
           \<lparr>entry_Name = ''raw'', entry_IsDir = True, entry_ModTime = 0, entry_Data = []\<rparr>])\<rparr>"

definition twin_world :: World where
  "twin_world =
     example_world\<lparr>dirs := (dirs example_world)
       (''photos/featured'' \<mapsto> [example_file ''0a.jpg'', example_file ''0a.png''])\<rparr>"

section \<open>Lemmas\<close>

subsection \<open>Extensions and generated names\<close>

lemma Ext_loop_suffix: "suffix (Ext_loop r s) (rev r @ s)"
proof (induction r arbitrary: s)
  case Nil
  show ?case by simp
next
  case (Cons c r)
  have "suffix (c # s) (rev r @ c # s)" by (simp add: suffix_def)
  moreover have "suffix (Ext_loop r (c # s)) (rev r @ c # s)" using Cons.IH by simp
  ultimately show ?case by auto
qed

lemma filepath_Ext_suffix: "suffix (filepath_Ext p) p"
  using Ext_loop_suffix [of "rev p" "[]"] by (simp add: filepath_Ext_def)

lemma Ext_loop_plain: "plain a \<Longrightarrow> Ext_loop (rev a @ r) s = Ext_loop r (a @ s)"
proof (induction a arbitrary: s rule: rev_induct)
  case Nil
  show ?case by simp
next
  case (snoc x a)
  then have "plain a" and "x \<noteq> CHR ''.''" and "x \<noteq> CHR ''/''" by (auto simp: plain_def)
  then show ?case using snoc.IH [of "x # s"] by simp
qed

lemma Ext_loop_shape:
  "Ext_loop r s = [] \<or> (\<exists>t. plain t \<and> Ext_loop r s = CHR ''.'' # t @ s)"
proof (induction r arbitrary: s)
  case Nil
  show ?case by simp
next
  case (Cons c r)
  show ?case
  proof (cases "c = CHR ''/'' \<or> c = CHR ''.''")
    case True
    then show ?thesis by (auto simp: plain_def intro: exI [of _ "[]"])
  next
    case False
    from Cons.IH [of "c # s"] show ?thesis
    proof
      assume "Ext_loop r (c # s) = []"
      with False show ?thesis by simp
    next
      assume "\<exists>t. plain t \<and> Ext_loop r (c # s) = CHR ''.'' # t @ c # s"
      then obtain t where t: "plain t" "Ext_loop r (c # s) = CHR ''.'' # t @ c # s" by blast
      from t(1) False have "plain (t @ [c])" by (auto simp: plain_def)
      with t(2) False show ?thesis by (intro disjI2 exI [of _ "t @ [c]"]) simp
    qed
  qed
qed

lemma filepath_Ext_shape:
  "filepath_Ext p = [] \<or> (\<exists>t. plain t \<and> filepath_Ext p = CHR ''.'' # t)"
  using Ext_loop_shape [of "rev p" "[]"] by (simp add: filepath_Ext_def)

lemma filepath_Ext_append:
  assumes "plain i"
  shows "filepath_Ext (i @ filepath_Ext orig) = filepath_Ext orig"
proof -
  from filepath_Ext_shape [of orig] show ?thesis
  proof
    assume e: "filepath_Ext orig = []"
    have "Ext_loop (rev i @ []) [] = Ext_loop [] (i @ [])" using assms by (rule Ext_loop_plain)
    with e show ?thesis by (simp add: filepath_Ext_def)
  next
    assume "\<exists>t. plain t \<and> filepath_Ext orig = CHR ''.'' # t"
    then obtain t where t: "plain t" "filepath_Ext orig = CHR ''.'' # t" by blast
    have "Ext_loop (rev t @ CHR ''.'' # rev i) [] = Ext_loop (CHR ''.'' # rev i) (t @ [])"
      using t(1) by (rule Ext_loop_plain)
    then have "filepath_Ext (i @ CHR ''.'' # t) = CHR ''.'' # t" by (simp add: filepath_Ext_def)
    with t(2) show ?thesis by simp
  qed
qed

lemma TrimSuffix_append: "TrimSuffix (i @ x) x = i"
  by (simp add: TrimSuffix_def suffix_def)

lemma stem_generated: "plain i \<Longrightarrow> stem (i @ filepath_Ext orig) = i"
  by (simp add: stem_def filepath_Ext_append TrimSuffix_append)

lemma hex_digit_plain: "n < 16 \<Longrightarrow> hextable ! n \<noteq> CHR ''.'' \<and> hextable ! n \<noteq> CHR ''/''"
proof -
  assume "n < 16"
  moreover have "length hextable = 16" by (simp add: hextable_def)
  ultimately have "hextable ! n \<in> set hextable" using nth_mem [of n hextable] by simp
  moreover have "CHR ''.'' \<notin> set hextable \<and> CHR ''/'' \<notin> set hextable"
    by (simp add: hextable_def)
  ultimately show ?thesis by metis
qed

lemma hex_EncodeToString_plain: "plain (hex_EncodeToString src)"
proof -
  have hi: "unat b div 16 < 16" for b :: "8 word"
  proof -
    have "unat b < 2 ^ LENGTH(8)" by (rule unsigned_less)
    then show ?thesis by simp
  qed
  have lo: "unat b mod 16 < 16" for b :: "8 word" by simp
  have "plain [hextable ! (unat b div 16), hextable ! (unat b mod 16)]" for b :: "8 word"
    using hex_digit_plain [OF hi [of b]] hex_digit_plain [OF lo [of b]]
    by (auto simp: plain_def)
  then show ?thesis
    by (induction src) (auto simp: plain_def hex_EncodeToString_def)
qed

subsection \<open>Tokens\<close>

lemma GetSigningMethod_HMAC:
  "GetSigningMethod a = Some (SigningMethodHMAC b) \<longleftrightarrow> a = b \<and> a \<in> hmac_algs"
  by (auto simp: GetSigningMethod_def hmac_algs_def)

lemma GetSigningMethod_HMAC_cases:
  "GetSigningMethod a = Some m \<Longrightarrow> (\<exists>b. m = SigningMethodHMAC b) \<Longrightarrow> m = SigningMethodHMAC a \<and> a \<in> hmac_algs"
  by (auto simp: GetSigningMethod_def hmac_algs_def split: if_splits)

lemma jwt_Parse_Inr:
  assumes "jwt_Parse tokenString (keyFunc key) now = Inr token"
  shows "\<exists>j a. tokenString = [Compact j] \<and> jws_Header j ''alg'' = Some (JString a) \<and> a \<in> hmac_algs \<and>
      jws_Signature j = HMAC a key (jws_Header j) (jws_Claims j) \<and>
      Validate (jws_Claims j) now \<and>
      token = \<lparr>Method = SigningMethodHMAC a, Header = jws_Header j, Claims = jws_Claims j, Valid = True\<rparr>"
  using assms
  by (auto simp: jwt_Parse_def keyFunc_def Verify_def Let_def
      split: list.splits sym.splits option.splits json.splits SigningMethod.splits if_splits
      dest!: GetSigningMethod_HMAC_cases)

lemma jwt_Parse_ok:
  assumes "jws_Header j ''alg'' = Some (JString a)" and "a \<in> hmac_algs"
    and "jws_Signature j = HMAC a key (jws_Header j) (jws_Claims j)"
    and "Validate (jws_Claims j) now"
  shows "jwt_Parse [Compact j] (keyFunc key) now =
     Inr \<lparr>Method = SigningMethodHMAC a, Header = jws_Header j, Claims = jws_Claims j, Valid = True\<rparr>"
proof -
  from assms(2) have "GetSigningMethod a = Some (SigningMethodHMAC a)"
    by (simp add: GetSigningMethod_HMAC)
  with assms show ?thesis
    by (simp add: jwt_Parse_def keyFunc_def Verify_def Let_def)
qed

lemma bearer_prefix: "HasPrefix (bearer @ x) bearer" "TrimPrefix (bearer @ x) bearer = x" "bearer @ x \<noteq> []"
  by (simp_all add: HasPrefix_def TrimPrefix_def bearer_def wire_of_def)

lemma Unix_passed: "e < Unix now \<Longrightarrow> e * second \<le> now"
proof -
  assume "e < Unix now"
  then have "e + 1 \<le> now div second" by (simp add: Unix_def)
  then have "(e + 1) * second \<le> now div second * second"
    by (simp add: second_def)
  also have "\<dots> \<le> now" by (simp add: second_def)
  finally show ?thesis by (simp add: second_def algebra_simps)
qed

lemma Unix_floor: "Unix t * second \<le> t" "t < (Unix t + 1) * second"
proof -
  show "Unix t * second \<le> t" by (simp add: Unix_def second_def)
  have "t mod second < second" by (simp add: second_def)
  moreover have "t = Unix t * second + t mod second" by (simp add: Unix_def)
  ultimately show "t < (Unix t + 1) * second" by (simp add: algebra_simps)
qed

lemma Unix_less: "t < e * second \<Longrightarrow> \<not> e < Unix t"
  using Unix_passed [of e t] by auto

lemma generateJWT_eq:
  "generateJWT env user =
     Inr [Compact \<lparr>jws_Header = issued_header, jws_Claims = issued_claims env user,
                   jws_Signature = HMAC ''HS256'' (jwtKey env) issued_header (issued_claims env user)\<rparr>]"
  by (simp add: generateJWT_def jwt_New_def SignedString_def Sign_def alg_name_def Let_def
      issued_header_def issued_claims_def)

lemma Validate_issued:
  assumes "0 \<le> Now envT"
  shows "Validate (issued_claims envT user) now \<longleftrightarrow> now < Unix (Now envT + hour * 24) * second"
proof -
  have "0 < Unix (Now envT + hour * 24)"
    using assms by (simp add: Unix_def hour_def second_def pos_imp_zdiv_pos_iff)
  then show ?thesis
    by (simp add: Validate_def verifyExpiresAt_def verifyNotBefore_def parseNumericDate_def
        issued_claims_def)
qed

lemma authMiddleware_issued:
  assumes "generateJWT envT user = Inr tokenString" and "0 \<le> Now envT"
    and "jwtKey env = jwtKey envT" and "req_Authorization r = bearer @ tokenString"
  shows "authMiddleware env next r w =
     (if Now env < Unix (Now envT + hour * 24) * second
      then next (r\<lparr>req_userID := Some (user_ID user)\<rparr>) w
      else (respondWithError 401 ''Invalid token'', w))"
proof -
  let ?j = "\<lparr>jws_Header = issued_header, jws_Claims = issued_claims envT user,
             jws_Signature = HMAC ''HS256'' (jwtKey envT) issued_header (issued_claims envT user)\<rparr>"
  from assms(1) have ts: "tokenString = [Compact ?j]" by (simp add: generateJWT_eq)
  show ?thesis
  proof (cases "Now env < Unix (Now envT + hour * 24) * second")
    case True
    then have "Validate (jws_Claims ?j) (Now env)" using Validate_issued [OF assms(2)] by simp
    then have "jwt_Parse [Compact ?j] (keyFunc (jwtKey envT)) (Now env) =
        Inr \<lparr>Method = SigningMethodHMAC ''HS256'', Header = jws_Header ?j, Claims = jws_Claims ?j,
             Valid = True\<rparr>"
      by (intro jwt_Parse_ok) (simp_all add: issued_header_def hmac_algs_def)
    moreover have "\<not> Unix (Now envT + hour * 24) < Unix (Now env)" using True by (rule Unix_less)
    ultimately show ?thesis using True assms(3,4) ts
      by (simp add: authMiddleware_def bearer_prefix issued_claims_def)
  next
    case False
    then have "\<not> Validate (jws_Claims ?j) (Now env)" using Validate_issued [OF assms(2)] by simp
    then have "\<And>tok. jwt_Parse [Compact ?j] (keyFunc (jwtKey envT)) (Now env) \<noteq> Inr tok"
      using jwt_Parse_Inr by blast
    then obtain err where "jwt_Parse [Compact ?j] (keyFunc (jwtKey envT)) (Now env) = Inl err"
      by (meson sum.exhaust)
    then show ?thesis using False assms(3,4) ts
      by (simp add: authMiddleware_def bearer_prefix)
  qed
qed

lemma loginHandler_200:
  assumes "loginHandler env r w = (Responded 200 resp, w1)"
  shows "\<exists>user. generateJWT env user = Inr (Token resp) \<and> User resp = Some
      \<lparr>ur_ID = user_ID user, ur_Name = user_Name user, ur_Email = user_Email user\<rparr>"
  using assms
  by (auto simp: loginHandler_def respondWithError_def respondWithJSON_def GetUserByEmail_def Let_def
      split: option.splits if_splits sum.splits prod.splits)

subsection \<open>Registration and login\<close>

lemma find_fresh:
  "\<forall>u \<in> set xs. \<not> P u \<Longrightarrow> P a \<Longrightarrow> find P (xs @ a # ys) = Some a"
  by (induction xs) simp_all

lemma find_None_all: "find P xs = None \<longleftrightarrow> (\<forall>x \<in> set xs. \<not> P x)"
  by (induction xs) auto

lemma registerHandler_201:
  assumes "req_Body r = Some creds"
    and "creds_Name creds \<noteq> []" and "creds_Email creds \<noteq> []" and "creds_Password creds \<noteq> []"
    and "length (creds_Password creds) \<le> 72"
    and "\<forall>u \<in> set (users w). user_Email u \<noteq> creds_Email creds"
  shows "\<exists>account. registerHandler env r w =
           (respondWithJSON 201 registered,
            (called (CreateUserCall (creds_Email creds))
               (called (CheckEmailExistsCall (creds_Email creds)) w))
            \<lparr>users := users w @ [account], sqlite_sequence := user_ID account\<rparr>) \<and>
         user_Name account = creds_Name creds \<and> user_Email account = creds_Email creds \<and>
         user_Password account =
           Bcrypt DefaultCost (map (Rand env) [0..<16]) (creds_Password creds)"
  using assms
  by (intro exI [of _ "\<lparr>user_ID = fold max (map user_ID (users w)) (sqlite_sequence w) + 1,
        user_Name = creds_Name creds, user_Email = creds_Email creds,
        user_Password = Bcrypt DefaultCost (map (Rand env) [0..<16]) (creds_Password creds),
        user_CreatedAt = Now env\<rparr>"])
    (simp add: registerHandler_def CheckEmailExists_def GenerateFromPassword_def CreateUser_def
      called_def Let_def registered_def)

lemma loginHandler_found:
  assumes "req_Body r = Some creds" and "creds_Email creds \<noteq> []" and "creds_Password creds \<noteq> []"
    and "find (\<lambda>u. user_Email u = creds_Email creds) (users w) = Some user"
    and "user_Password user = Bcrypt cost salt (creds_Password creds)"
  shows "loginHandler env r w =
     (respondWithJSON 200
        \<lparr>Success = True, Message = [],
         Token = [Compact \<lparr>jws_Header = issued_header, jws_Claims = issued_claims env user,
                   jws_Signature = HMAC ''HS256'' (jwtKey env) issued_header (issued_claims env user)\<rparr>],
         User = Some \<lparr>ur_ID = user_ID user, ur_Name = user_Name user, ur_Email = user_Email user\<rparr>,
         Data = NoData\<rparr>,
      called (GetUserByEmailCall (creds_Email creds)) w)"
proof -
  have "issued_claims env
      \<lparr>user_ID = user_ID user, user_Name = user_Name user, user_Email = user_Email user,
       user_Password = NotAHash [], user_CreatedAt = 0\<rparr> = issued_claims env user"
    by (simp add: issued_claims_def)
  with assms show ?thesis
    by (simp add: loginHandler_def GetUserByEmail_def CompareHashAndPassword_def generateJWT_eq)
qed

lemma example_login:
  "loginHandler example_env (example_request\<lparr>req_Body := Some example_creds\<rparr>) world_with_user =
     (Responded 200 login_response, called (GetUserByEmailCall ''a@x.com'') world_with_user)"
proof -
  have "loginHandler example_env (example_request\<lparr>req_Body := Some example_creds\<rparr>) world_with_user =
     (respondWithJSON 200
        \<lparr>Success = True, Message = [],
         Token = [Compact \<lparr>jws_Header = issued_header, jws_Claims = issued_claims example_env example_user,
                   jws_Signature = HMAC ''HS256'' (jwtKey example_env) issued_header
                     (issued_claims example_env example_user)\<rparr>],
         User = Some \<lparr>ur_ID = user_ID example_user, ur_Name = user_Name example_user,
                      ur_Email = user_Email example_user\<rparr>,
         Data = NoData\<rparr>,
      called (GetUserByEmailCall (creds_Email example_creds)) world_with_user)"
    by (rule loginHandler_found [where cost = 10 and salt = "[]"])
      (simp_all add: example_request_def example_creds_def world_with_user_def example_user_def)
  then show ?thesis
    by (simp add: respondWithJSON_def login_response_def example_token_def example_env_def
        example_user_def example_creds_def)
qed

subsection \<open>Upload and listing\<close>

lemma validCategories_iff: "validCategories category \<longleftrightarrow> category \<in> valid_names"
  by (simp add: validCategories_def valid_names_def)

lemma listPhotos_eq:
  "listPhotos env (scheme_of r) (req_Host r) category files =
     map (listed env r category) (filter (\<lambda>e. \<not> entry_IsDir e) files)"
  by (induction files) (simp_all add: listed_def stem_def Let_def)

lemma getPhotos_200:
  assumes "validCategories category" and "lookup_string (req_Vars r) ''category'' = category"
    and "dirs w (filepath_Join ''photos'' category) = Some files"
  shows "getPhotosByCategoryHandler env r w =
     (respondWithJSON 200
        \<lparr>Success = True, Message = [], Token = [], User = None,
         Data = Photos (map (listed env r category) (filter (\<lambda>e. \<not> entry_IsDir e) files))\<rparr>,
      called (ReadDirCall (filepath_Join ''photos'' category)) w)"
  using assms by (simp add: getPhotosByCategoryHandler_def os_ReadDir_def listPhotos_eq)

lemma uploadPhotoHandler_201:
  assumes "uploadPhotoHandler env r w = (Responded 201 resp, w1)"
  shows "\<exists>form handler files e.
      req_Form r = Some form \<and> validCategories (form_category form) \<and>
      form_photo form = Some handler \<and>
      Data resp = Photo
        \<lparr>photo_ID = generateID env,
         photo_Filename = generateID env @ filepath_Ext (part_Filename handler),
         photo_Title = form_title form,
         photo_Category = form_category form,
         photo_URL = photoURL (scheme_of r) (req_Host r) (form_category form)
           (generateID env @ filepath_Ext (part_Filename handler)),
         photo_UploadDate = RFC3339 env (Now env)\<rparr> \<and>
      dirs w1 (filepath_Join ''photos'' (form_category form)) = Some files \<and>
      e \<in> set files \<and> \<not> entry_IsDir e \<and>
      entry_Name e = generateID env @ filepath_Ext (part_Filename handler)"
proof -
  from assms obtain form where form: "req_Form r = Some form"
    by (cases "req_Form r") (simp_all add: uploadPhotoHandler_def respondWithError_def respondWithJSON_def)
  from assms form have valid: "validCategories (form_category form)"
    by (auto simp: uploadPhotoHandler_def respondWithError_def respondWithJSON_def Let_def
        split: if_splits)
  from assms form valid obtain handler where handler: "form_photo form = Some handler"
    by (cases "form_photo form")
      (simp_all add: uploadPhotoHandler_def respondWithError_def respondWithJSON_def Let_def)
  from assms form valid handler have image: "HasPrefix (part_ContentType handler) ''image/''"
    by (auto simp: uploadPhotoHandler_def respondWithError_def respondWithJSON_def Let_def
        split: if_splits)
  let ?dir = "filepath_Join ''photos'' (form_category form)"
  let ?name = "generateID env @ filepath_Ext (part_Filename handler)"
  from assms form valid handler image obtain old where old: "dirs w ?dir = Some old"
    and nodir: "\<not> (\<exists>e \<in> set old. entry_Name e = ?name \<and> entry_IsDir e)"
    by (cases "dirs w ?dir")
      (auto simp: uploadPhotoHandler_def respondWithError_def respondWithJSON_def Let_def
        os_Create_def split: if_splits)
  let ?file = "\<lparr>entry_Name = ?name, entry_IsDir = False, entry_ModTime = Now env, entry_Data = []\<rparr>"
  let ?upd = "\<lambda>e. if entry_Name e = ?name \<and> \<not> entry_IsDir e
      then e\<lparr>entry_Data := part_Bytes handler, entry_ModTime := Now env\<rparr> else e"
  let ?files = "map ?upd (insort_key entry_Name ?file (filter (\<lambda>e. entry_Name e \<noteq> ?name) old))"
  from assms form valid handler image old nodir
  have res: "Data resp = Photo
        \<lparr>photo_ID = generateID env, photo_Filename = ?name, photo_Title = form_title form,
         photo_Category = form_category form,
         photo_URL = photoURL (scheme_of r) (req_Host r) (form_category form) ?name,
         photo_UploadDate = RFC3339 env (Now env)\<rparr>"
    and w1: "dirs w1 ?dir = Some ?files"
    by (auto simp: uploadPhotoHandler_def respondWithError_def respondWithJSON_def Let_def
        os_Create_def io_Copy_def called_def)
  have mem: "?file \<in> set (insort_key entry_Name ?file (filter (\<lambda>e. entry_Name e \<noteq> ?name) old))"
    by (simp add: set_insort_key)
  have "?upd ?file \<in> set ?files"
    unfolding set_map image_iff by (rule bexI [OF _ mem]) (rule refl)
  then have "?upd ?file \<in> set ?files \<and> \<not> entry_IsDir (?upd ?file) \<and> entry_Name (?upd ?file) = ?name"
    by simp
  with form valid handler res w1 show ?thesis by blast
qed

lemma upload_ignores_title:
  "snd (uploadPhotoHandler env (r\<lparr>req_Form := Some (form\<lparr>form_title := t\<rparr>)\<rparr>) w) =
   snd (uploadPhotoHandler env (r\<lparr>req_Form := Some form\<rparr>) w)"
  by (simp add: uploadPhotoHandler_def Let_def split: option.splits sum.splits prod.splits)

subsection \<open>The scan of the delete handler\<close>

lemma findInFiles_eq:
  "findInFiles categoryDir photoID files =
     (case filter (\<lambda>e. \<not> entry_IsDir e \<and> stem (entry_Name e) = photoID) files of
        [] \<Rightarrow> None
      | f # rest \<Rightarrow> Some (categoryDir, entry_Name f))"
  by (induction files) (simp_all add: stem_def Let_def)

lemma findInCategories_dirs:
  "findInCategories photoID cats w = (found, w1) \<Longrightarrow>
     dirs w1 = dirs w \<and> users w1 = users w \<and> sqlite_sequence w1 = sqlite_sequence w \<and>
     (\<forall>d n. RemoveCall d n \<in> set (calls w1) \<longrightarrow> RemoveCall d n \<in> set (calls w))"
proof (induction cats arbitrary: w)
  case Nil
  then show ?case by simp
next
  case (Cons c cats)
  let ?w = "called (ReadDirCall (filepath_Join ''photos'' c)) w"
  have w: "dirs ?w = dirs w" "users ?w = users w" "sqlite_sequence ?w = sqlite_sequence w"
    "\<And>d n. RemoveCall d n \<in> set (calls ?w) \<longleftrightarrow> RemoveCall d n \<in> set (calls w)"
    by (auto simp: called_def)
  from Cons.prems consider "(found, w1) = findInCategories photoID cats ?w" | "w1 = ?w"
    by (auto simp: os_ReadDir_def Let_def split: option.splits)
  then show ?case
  proof cases
    case 1
    then show ?thesis using Cons.IH [of ?w] w by auto
  next
    case 2
    then show ?thesis using w by auto
  qed
qed

lemma matching_called: "matching photoID (called c w) category = matching photoID w category"
  by (simp add: matching_def called_def)

lemma findInCategories_found:
  "fst (findInCategories photoID cats w) =
     (case find (\<lambda>c. matching photoID w c \<noteq> []) cats of
        None \<Rightarrow> None
      | Some c \<Rightarrow> Some (filepath_Join ''photos'' c, entry_Name (hd (matching photoID w c))))"
proof (induction cats arbitrary: w)
  case Nil
  show ?case by simp
next
  case (Cons c cats)
  let ?w = "called (ReadDirCall (filepath_Join ''photos'' c)) w"
  have m: "\<And>c'. matching photoID ?w c' = matching photoID w c'" by (rule matching_called)
  have d: "dirs ?w = dirs w" by (simp add: called_def)
  show ?case
  proof (cases "matching photoID w c")
    case Nil
    then show ?thesis using Cons.IH [of ?w] m
      by (auto simp: os_ReadDir_def Let_def findInFiles_eq matching_def split: option.splits list.splits)
  next
    case (Cons f rest)
    then show ?thesis
      by (auto simp: os_ReadDir_def Let_def findInFiles_eq matching_def split: option.splits list.splits)
  qed
qed

lemma deletePhotoHandler_none:
  assumes "find (\<lambda>c. matching (lookup_string (req_Vars r) ''id'') w c \<noteq> []) categories = None"
  shows "fst (deletePhotoHandler env r w) = respondWithError 404 ''Photo not found''"
    and "dirs (snd (deletePhotoHandler env r w)) = dirs w"
proof -
  let ?id = "lookup_string (req_Vars r) ''id''"
  obtain found w1 where f: "findInCategories ?id categories w = (found, w1)" by fastforce
  from findInCategories_found [of ?id categories w] f assms have "found = None" by simp
  with f show "fst (deletePhotoHandler env r w) = respondWithError 404 ''Photo not found''"
    by (simp add: deletePhotoHandler_def)
  from f \<open>found = None\<close> findInCategories_dirs [OF f]
  show "dirs (snd (deletePhotoHandler env r w)) = dirs w"
    by (simp add: deletePhotoHandler_def)
qed

lemma deletePhotoHandler_some:
  assumes "find (\<lambda>c. matching (lookup_string (req_Vars r) ''id'') w c \<noteq> []) categories = Some c"
  shows "fst (deletePhotoHandler env r w) = respondWithJSON 200 deleted"
    and "dirs (snd (deletePhotoHandler env r w)) =
      without (filepath_Join ''photos'' c)
        (entry_Name (hd (matching (lookup_string (req_Vars r) ''id'') w c))) (dirs w)"
proof -
  let ?id = "lookup_string (req_Vars r) ''id''"
  let ?dir = "filepath_Join ''photos'' c"
  let ?f = "hd (matching ?id w c)"
  obtain found w1 where f: "findInCategories ?id categories w = (found, w1)" by fastforce
  from findInCategories_found [of ?id categories w] f assms
  have found: "found = Some (?dir, entry_Name ?f)" by simp
  from assms have ne: "matching ?id w c \<noteq> []" by (auto dest: find_Some_iff [THEN iffD1])
  then obtain files where files: "dirs w ?dir = Some files"
    by (auto simp: matching_def split: option.splits)
  from ne have "?f \<in> set (matching ?id w c)" by simp
  with files have mem: "?f \<in> set files" "\<not> entry_IsDir ?f" by (auto simp: matching_def)
  from findInCategories_dirs [OF f] have d1: "dirs w1 = dirs w" by simp
  from mem have ex: "\<exists>e \<in> set files. entry_Name e = entry_Name ?f \<and> \<not> entry_IsDir e" by blast
  have rm: "os_Remove (?dir, entry_Name ?f) w1 =
      (Inr (), (called (RemoveCall ?dir (entry_Name ?f)) w1)
         \<lparr>dirs := (dirs w1)(?dir \<mapsto> filter (\<lambda>e. entry_Name e \<noteq> entry_Name ?f) files)\<rparr>)"
    using files d1 ex by (simp add: os_Remove_def Let_def)
  from f found rm show "fst (deletePhotoHandler env r w) = respondWithJSON 200 deleted"
    by (simp add: deletePhotoHandler_def deleted_def)
  from f found rm d1 files
  show "dirs (snd (deletePhotoHandler env r w)) = without ?dir (entry_Name ?f) (dirs w)"
    by (auto simp: deletePhotoHandler_def without_def)
qed

lemma concat_single:
  "concat (map g cs) = [f] \<Longrightarrow> find (\<lambda>c. g c \<noteq> []) cs = Some c \<Longrightarrow>
     g c = [f] \<and> (\<forall>c' \<in> set cs. c' \<noteq> c \<longrightarrow> g c' = [])"
proof (induction cs)
  case Nil
  then show ?case by simp
next
  case (Cons a cs)
  show ?case
  proof (cases "g a")
    case Nil
    with Cons.prems have "concat (map g cs) = [f]" "find (\<lambda>c. g c \<noteq> []) cs = Some c"
      by simp_all
    then have "g c = [f] \<and> (\<forall>c' \<in> set cs. c' \<noteq> c \<longrightarrow> g c' = [])" by (rule Cons.IH)
    with Nil show ?thesis by simp
  next
    case (Cons x xs)
    with Cons.prems(2) have "c = a" by simp
    from Cons Cons.prems(1) have "x = f" "xs = []" "concat (map g cs) = []" by simp_all
    then have "g a = [f]" "\<forall>c' \<in> set cs. g c' = []" using Cons by simp_all
    with \<open>c = a\<close> show ?thesis by simp
  qed
qed

lemma filepath_Join_inject [simp]: "filepath_Join d a = filepath_Join d b \<longleftrightarrow> a = b"
  by (simp add: filepath_Join_def)

lemma matching_without:
  "dirs w' = without (filepath_Join ''photos'' c) name (dirs w) \<Longrightarrow>
   matching photoID w' c' =
     (if c' = c then filter (\<lambda>e. entry_Name e \<noteq> name) (matching photoID w c')
      else matching photoID w c')"
  by (auto simp: matching_def without_def split: option.splits intro: filter_cong)

section \<open>The claims\<close>

text \<open>
  Claim C1, as amended. A registration with non-empty name, email and password, a
  password of at most 72 bytes, and an email that no row holds, answers 201 and appends
  one account to the table; a later login with the same email and password (on a table
  that has only grown since) answers 200 with that account's summary and a token whose
  \<open>user_id\<close> claim is the account's id and whose \<open>email\<close> claim is the account's email.
\<close>

theorem register_then_login:
  assumes "req_Body r = Some creds"
    and "creds_Name creds \<noteq> []" and "creds_Email creds \<noteq> []" and "creds_Password creds \<noteq> []"
    and "length (creds_Password creds) \<le> 72"
    and "\<forall>u \<in> set (users w). user_Email u \<noteq> creds_Email creds"
    and "req_Body r' = Some creds'"
    and "creds_Email creds' = creds_Email creds"
    and "creds_Password creds' = creds_Password creds"
    and "users w' = users (snd (registerHandler env r w)) @ later"
  shows "\<exists>account token.
      fst (registerHandler env r w) = respondWithJSON 201 registered \<and>
      users (snd (registerHandler env r w)) = users w @ [account] \<and>
      user_Name account = creds_Name creds \<and> user_Email account = creds_Email creds \<and>
      fst (loginHandler env' r' w') =
        respondWithJSON 200
          \<lparr>Success = True, Message = [], Token = [Compact token],
           User = Some \<lparr>ur_ID = user_ID account, ur_Name = creds_Name creds,
                        ur_Email = creds_Email creds\<rparr>,
           Data = NoData\<rparr> \<and>
      jws_Claims token ''user_id'' = Some (JNumber (user_ID account)) \<and>
      jws_Claims token ''email'' = Some (JString (user_Email account))"
proof -
  from registerHandler_201 [OF assms(1-6), of env] obtain account where
    reg: "registerHandler env r w =
           (respondWithJSON 201 registered,
            (called (CreateUserCall (creds_Email creds))
               (called (CheckEmailExistsCall (creds_Email creds)) w))
            \<lparr>users := users w @ [account], sqlite_sequence := user_ID account\<rparr>)"
    and acc: "user_Name account = creds_Name creds" "user_Email account = creds_Email creds"
      "user_Password account = Bcrypt DefaultCost (map (Rand env) [0..<16]) (creds_Password creds)"
    by blast
  from reg have u1: "users (snd (registerHandler env r w)) = users w @ [account]" by simp
  with assms(10) have "users w' = users w @ account # later" by simp
  with assms(6,8) acc(2)
  have found: "find (\<lambda>u. user_Email u = creds_Email creds') (users w') = Some account"
    by (simp add: find_fresh)
  from assms(3,4,8,9) have ne: "creds_Email creds' \<noteq> []" "creds_Password creds' \<noteq> []" by simp_all
  from acc(3) assms(9)
  have pw: "user_Password account = Bcrypt DefaultCost (map (Rand env) [0..<16]) (creds_Password creds')"
    by simp
  note login = loginHandler_found [OF assms(7) ne found pw, of env']
  let ?token = "\<lparr>jws_Header = issued_header, jws_Claims = issued_claims env' account,
     jws_Signature = HMAC ''HS256'' (jwtKey env') issued_header (issued_claims env' account)\<rparr>"
  have "jws_Claims ?token ''user_id'' = Some (JNumber (user_ID account))"
    "jws_Claims ?token ''email'' = Some (JString (user_Email account))"
    by (simp_all add: issued_claims_def)
  with reg u1 acc login show ?thesis
    by (intro exI [of _ account] exI [of _ ?token]) simp
qed

text \<open>An instance: A registers on the empty table and logs in.\<close>

theorem register_then_login_witness:
  "\<exists>account token.
      fst (registerHandler example_env (example_request\<lparr>req_Body := Some example_creds\<rparr>)
             example_world) = respondWithJSON 201 registered \<and>
      users (snd (registerHandler example_env (example_request\<lparr>req_Body := Some example_creds\<rparr>)
                    example_world)) = [account] \<and>
      user_Name account = ''A'' \<and> user_Email account = ''a@x.com'' \<and>
      fst (loginHandler example_env (example_request\<lparr>req_Body := Some example_creds\<rparr>)
             (snd (registerHandler example_env (example_request\<lparr>req_Body := Some example_creds\<rparr>)
                     example_world))) =
        respondWithJSON 200
          \<lparr>Success = True, Message = [], Token = [Compact token],
           User = Some \<lparr>ur_ID = user_ID account, ur_Name = ''A'', ur_Email = ''a@x.com''\<rparr>,
           Data = NoData\<rparr> \<and>
      jws_Claims token ''user_id'' = Some (JNumber (user_ID account)) \<and>
      jws_Claims token ''email'' = Some (JString (user_Email account))"
  using register_then_login [of "example_request\<lparr>req_Body := Some example_creds\<rparr>" example_creds
      example_world "example_request\<lparr>req_Body := Some example_creds\<rparr>" example_creds
      "snd (registerHandler example_env (example_request\<lparr>req_Body := Some example_creds\<rparr>)
         example_world)" example_env "[]" example_env]
  by (simp add: example_request_def example_creds_def example_world_def)

text \<open>The claim as stated fails for a password of 73 bytes: all fields are non-empty, the table is empty, and the registration answers 500.\<close>

theorem register_long_password_counterexample:
  "req_Body (example_request\<lparr>req_Body := Some long_creds\<rparr>) = Some long_creds \<and>
   creds_Name long_creds \<noteq> [] \<and> creds_Email long_creds \<noteq> [] \<and>
   creds_Password long_creds \<noteq> [] \<and> users example_world = [] \<and>
   fst (registerHandler example_env (example_request\<lparr>req_Body := Some long_creds\<rparr>) example_world) =
     respondWithError 500 ''Error hashing password''"
  by (simp add: registerHandler_def CheckEmailExists_def GenerateFromPassword_def
      example_request_def long_creds_def example_world_def called_def)

text \<open>
  Claim C2, as amended. A token issued by a login at the instant \<open>T\<close> (not before the
  Unix epoch) carries as \<open>exp\<close> the whole second of \<open>T + 24h\<close>. Under the same key the
  middleware passes the request on, with the user's id, at every instant strictly before
  that second, and answers 401 at every instant from that second on: in particular at
  every instant from \<open>T + 24h\<close> on it answers 401, and at every instant more than a second
  before \<open>T + 24h\<close> it passes the request on.
\<close>

theorem token_validity_window:
  assumes "loginHandler envT rl wl = (Responded 200 resp, wl')" and "0 \<le> Now envT"
    and "jwtKey env = jwtKey envT" and "req_Authorization r = bearer @ Token resp"
  shows "authMiddleware env next r w =
     (if Now env < Unix (Now envT + hour * 24) * second
      then next (r\<lparr>req_userID := map_option ur_ID (User resp)\<rparr>) w
      else (respondWithError 401 ''Invalid token'', w)) \<and>
     (Now envT + hour * 24 \<le> Now env \<longrightarrow>
        authMiddleware env next r w = (respondWithError 401 ''Invalid token'', w)) \<and>
     (Now env < Now envT + hour * 24 - second \<longrightarrow>
        authMiddleware env next r w =
          next (r\<lparr>req_userID := map_option ur_ID (User resp)\<rparr>) w)"
proof -
  from loginHandler_200 [OF assms(1)] obtain user where
    u: "generateJWT envT user = Inr (Token resp)"
       "User resp = Some \<lparr>ur_ID = user_ID user, ur_Name = user_Name user, ur_Email = user_Email user\<rparr>"
    by blast
  from authMiddleware_issued [OF u(1) assms(2,3,4)] u(2)
  have window: "authMiddleware env next r w =
     (if Now env < Unix (Now envT + hour * 24) * second
      then next (r\<lparr>req_userID := map_option ur_ID (User resp)\<rparr>) w
      else (respondWithError 401 ''Invalid token'', w))"
    by simp
  have lower: "Unix (Now envT + hour * 24) * second \<le> Now envT + hour * 24"
    by (rule Unix_floor(1))
  have upper: "Now envT + hour * 24 < (Unix (Now envT + hour * 24) + 1) * second"
    by (rule Unix_floor(2))
  then have upper': "Now envT + hour * 24 - second < Unix (Now envT + hour * 24) * second"
    by (simp add: algebra_simps)
  from window lower upper' show ?thesis by auto
qed

text \<open>An instance: the token of a login is accepted an hour later and refused 24 hours later.\<close>

theorem token_validity_window_witness:
  "(\<forall>handler w.
      authMiddleware (example_env\<lparr>Now := Now example_env + hour\<rparr>) handler
        (example_request\<lparr>req_Authorization := bearer @ [Compact example_token]\<rparr>) w =
      handler (example_request\<lparr>req_Authorization := bearer @ [Compact example_token],
                               req_userID := Some 1\<rparr>) w) \<and>
   (\<forall>handler w.
      authMiddleware (example_env\<lparr>Now := Now example_env + hour * 24\<rparr>) handler
        (example_request\<lparr>req_Authorization := bearer @ [Compact example_token]\<rparr>) w =
      (respondWithError 401 ''Invalid token'', w))"
proof (intro conjI allI)
  have epoch: "0 \<le> Now example_env" by (simp add: example_env_def second_def)
  fix handler w
  show "authMiddleware (example_env\<lparr>Now := Now example_env + hour\<rparr>) handler
        (example_request\<lparr>req_Authorization := bearer @ [Compact example_token]\<rparr>) w =
      handler (example_request\<lparr>req_Authorization := bearer @ [Compact example_token],
                               req_userID := Some 1\<rparr>) w"
    using token_validity_window [OF example_login epoch,
        of "example_env\<lparr>Now := Now example_env + hour\<rparr>"
           "example_request\<lparr>req_Authorization := bearer @ [Compact example_token]\<rparr>" handler w]
    by (simp add: login_response_def example_env_def Unix_def second_def hour_def)
  show "authMiddleware (example_env\<lparr>Now := Now example_env + hour * 24\<rparr>) handler
        (example_request\<lparr>req_Authorization := bearer @ [Compact example_token]\<rparr>) w =
      (respondWithError 401 ''Invalid token'', w)"
    using token_validity_window [OF example_login epoch,
        of "example_env\<lparr>Now := Now example_env + hour * 24\<rparr>"
           "example_request\<lparr>req_Authorization := bearer @ [Compact example_token]\<rparr>" handler w]
    by (simp add: login_response_def example_env_def Unix_def second_def hour_def)
qed

text \<open>The claim as stated fails for a token issued half a second after a whole second: three tenths of a second before \<open>T + 24h\<close> the middleware answers 401.\<close>

theorem token_subsecond_counterexample:
  "status (fst (loginHandler early_env (example_request\<lparr>req_Body := Some example_creds\<rparr>)
                  world_with_user)) = 200 \<and>
   Now late_env < Now early_env + hour * 24 \<and>
   jwtKey late_env = jwtKey early_env \<and>
   authMiddleware late_env (profileHandler late_env)
     (example_request\<lparr>req_Authorization := bearer @
        Token (response (fst (loginHandler early_env
                 (example_request\<lparr>req_Body := Some example_creds\<rparr>) world_with_user)))\<rparr>)
     world_with_user =
   (respondWithError 401 ''Invalid token'', world_with_user)"
proof -
  let ?tok = "[Compact \<lparr>jws_Header = issued_header, jws_Claims = issued_claims early_env example_user,
                   jws_Signature = HMAC ''HS256'' (jwtKey early_env) issued_header
                     (issued_claims early_env example_user)\<rparr>]"
  have login: "loginHandler early_env (example_request\<lparr>req_Body := Some example_creds\<rparr>) world_with_user =
     (respondWithJSON 200
        \<lparr>Success = True, Message = [], Token = ?tok,
         User = Some \<lparr>ur_ID = user_ID example_user, ur_Name = user_Name example_user,
                      ur_Email = user_Email example_user\<rparr>,
         Data = NoData\<rparr>,
      called (GetUserByEmailCall (creds_Email example_creds)) world_with_user)"
    by (rule loginHandler_found [where cost = 10 and salt = "[]"])
      (simp_all add: example_request_def example_creds_def world_with_user_def example_user_def)
  have gen: "generateJWT early_env example_user = Inr ?tok" by (rule generateJWT_eq)
  have epoch: "0 \<le> Now early_env" by (simp add: early_env_def second_def)
  have key: "jwtKey late_env = jwtKey early_env" by (simp add: late_env_def early_env_def)
  have "authMiddleware late_env (profileHandler late_env)
      (example_request\<lparr>req_Authorization := bearer @ ?tok\<rparr>) world_with_user =
    (respondWithError 401 ''Invalid token'', world_with_user)"
    using authMiddleware_issued [OF gen epoch key,
        of "example_request\<lparr>req_Authorization := bearer @ ?tok\<rparr>" "profileHandler late_env"
          world_with_user]
    by (simp add: late_env_def early_env_def Unix_def second_def hour_def)
  with login key show ?thesis
    by (simp add: respondWithJSON_def late_env_def early_env_def second_def hour_def)
qed



text \<open>
  Claim C4. After an upload that answers 201 with a photo record, a listing of the
  category of the upload, on the directories the upload left, answers 200 with a list
  that holds a record of the same id and the same file name.
\<close>

theorem upload_then_list:
  assumes "uploadPhotoHandler env r w = (Responded 201 resp, w1)"
    and "req_Form r = Some form"
    and "lookup_string (req_Vars r') ''category'' = form_category form"
    and "dirs w' = dirs w1"
  shows "\<exists>p photos q.
      Data resp = Photo p \<and>
      fst (getPhotosByCategoryHandler env' r' w') =
        respondWithJSON 200
          \<lparr>Success = True, Message = [], Token = [], User = None, Data = Photos photos\<rparr> \<and>
      q \<in> set photos \<and> photo_ID q = photo_ID p \<and> photo_Filename q = photo_Filename p"
proof -
  from uploadPhotoHandler_201 [OF assms(1)] obtain form' handler files e where
    "req_Form r = Some form'" "validCategories (form_category form')"
    "form_photo form' = Some handler"
    "Data resp = Photo
        \<lparr>photo_ID = generateID env,
         photo_Filename = generateID env @ filepath_Ext (part_Filename handler),
         photo_Title = form_title form',
         photo_Category = form_category form',
         photo_URL = photoURL (scheme_of r) (req_Host r) (form_category form')
           (generateID env @ filepath_Ext (part_Filename handler)),
         photo_UploadDate = RFC3339 env (Now env)\<rparr>"
    "dirs w1 (filepath_Join ''photos'' (form_category form')) = Some files"
    "e \<in> set files" "\<not> entry_IsDir e"
    "entry_Name e = generateID env @ filepath_Ext (part_Filename handler)"
    by (elim exE conjE) (rule that)
  moreover from this(1) assms(2) have "form' = form" by simp
  ultimately have
    valid: "validCategories (form_category form)"
    and res: "Data resp = Photo
        \<lparr>photo_ID = generateID env,
         photo_Filename = generateID env @ filepath_Ext (part_Filename handler),
         photo_Title = form_title form,
         photo_Category = form_category form,
         photo_URL = photoURL (scheme_of r) (req_Host r) (form_category form)
           (generateID env @ filepath_Ext (part_Filename handler)),
         photo_UploadDate = RFC3339 env (Now env)\<rparr>"
    and files: "dirs w1 (filepath_Join ''photos'' (form_category form)) = Some files"
    and e: "e \<in> set files" "\<not> entry_IsDir e"
      "entry_Name e = generateID env @ filepath_Ext (part_Filename handler)"
    by simp_all
  from files assms(4) have "dirs w' (filepath_Join ''photos'' (form_category form)) = Some files"
    by simp
  note list = getPhotos_200 [OF valid assms(3) this, of env']
  let ?q = "listed env' r' (form_category form) e"
  have "plain (generateID env)" by (simp add: generateID_def hex_EncodeToString_plain)
  then have "stem (entry_Name e) = generateID env" using e(3) by (simp add: stem_generated)
  then have "photo_ID ?q = generateID env" "photo_Filename ?q = entry_Name e"
    by (simp_all add: listed_def)
  moreover from e have "?q \<in> set (map (listed env' r' (form_category form))
      (filter (\<lambda>e. \<not> entry_IsDir e) files))" by simp
  ultimately show ?thesis using res list e(3)
    by (intro exI [of _ "\<lparr>photo_ID = generateID env,
         photo_Filename = generateID env @ filepath_Ext (part_Filename handler),
         photo_Title = form_title form,
         photo_Category = form_category form,
         photo_URL = photoURL (scheme_of r) (req_Host r) (form_category form)
           (generateID env @ filepath_Ext (part_Filename handler)),
         photo_UploadDate = RFC3339 env (Now env)\<rparr>"]
        exI [of _ "map (listed env' r' (form_category form)) (filter (\<lambda>e. \<not> entry_IsDir e) files)"]
        exI [of _ ?q]) simp
qed

text \<open>An instance: an upload to \<open>photography\<close> after start-up, then the listing of \<open>photography\<close>.\<close>

theorem upload_then_list_witness:
  "\<exists>p photos q.
      Data (response (fst (uploadPhotoHandler example_env
         (example_request\<lparr>req_Form := Some example_form\<rparr>) example_world))) = Photo p \<and>
      fst (getPhotosByCategoryHandler example_env
         (example_request\<lparr>req_Vars := [''category'' \<mapsto> ''photography'']\<rparr>)
         (snd (uploadPhotoHandler example_env
            (example_request\<lparr>req_Form := Some example_form\<rparr>) example_world))) =
        respondWithJSON 200
          \<lparr>Success = True, Message = [], Token = [], User = None, Data = Photos photos\<rparr> \<and>
      q \<in> set photos \<and> photo_ID q = photo_ID p \<and> photo_Filename q = photo_Filename p"
proof -
  let ?up = "uploadPhotoHandler example_env (example_request\<lparr>req_Form := Some example_form\<rparr>)
      example_world"
  have "\<exists>resp w1. ?up = (Responded 201 resp, w1)"
    by (simp add: uploadPhotoHandler_def example_request_def example_form_def example_world_def
        validCategories_def HasPrefix_def filepath_Join_def os_Create_def io_Copy_def called_def
        respondWithJSON_def Let_def)
  then obtain resp w1 where up: "?up = (Responded 201 resp, w1)" by blast
  then have sel: "response (fst ?up) = resp" "snd ?up = w1" by simp_all
  show ?thesis
    using upload_then_list [OF up, where form = example_form and w' = w1 and env' = example_env
        and r' = "example_request\<lparr>req_Vars := [''category'' \<mapsto> ''photography'']\<rparr>"]
    unfolding sel
    by (simp add: example_request_def example_form_def lookup_string_def)
qed

text \<open>
  Claim C5, as amended. The delete handler scans the categories in the order of
  \<open>categories\<close>. When no category holds a regular file whose stem is the id, it answers
  404 and leaves the directories as they were. Otherwise it answers 200 and removes,
  from the first category that holds such a file, the first such file of its listing;
  and when that file was the only one of that stem in the four categories, a second
  delete of the same id answers 404.
\<close>

theorem delete_first_match:
  "let photoID = lookup_string (req_Vars r) ''id'';
       after = snd (deletePhotoHandler env r w)
   in case find (\<lambda>c. matching photoID w c \<noteq> []) categories of
        None \<Rightarrow>
          fst (deletePhotoHandler env r w) = respondWithError 404 ''Photo not found'' \<and>
          dirs after = dirs w
      | Some c \<Rightarrow>
          fst (deletePhotoHandler env r w) = respondWithJSON 200 deleted \<and>
          dirs after =
            without (filepath_Join ''photos'' c) (entry_Name (hd (matching photoID w c))) (dirs w) \<and>
          (concat (map (matching photoID w) categories) = [hd (matching photoID w c)] \<longrightarrow>
             fst (deletePhotoHandler env' r after) = respondWithError 404 ''Photo not found'')"
proof -
  let ?id = "lookup_string (req_Vars r) ''id''"
  let ?after = "snd (deletePhotoHandler env r w)"
  show ?thesis
  proof (cases "find (\<lambda>c. matching ?id w c \<noteq> []) categories")
    case None
    from deletePhotoHandler_none [OF None] None show ?thesis by (simp add: Let_def)
  next
    case (Some c)
    let ?f = "hd (matching ?id w c)"
    note del = deletePhotoHandler_some [OF Some]
    have again: "fst (deletePhotoHandler env' r ?after) = respondWithError 404 ''Photo not found''"
      if single: "concat (map (matching ?id w) categories) = [?f]"
    proof -
      note cs = concat_single [OF single Some]
      have c: "matching ?id w c = [?f]" by (rule cs [THEN conjunct1])
      have others: "\<forall>c' \<in> set categories. c' \<noteq> c \<longrightarrow> matching ?id w c' = []"
        by (rule cs [THEN conjunct2])
      define f0 where "f0 = ?f"
      have m: "matching ?id w c = [f0]" unfolding f0_def by (rule c)
      have d: "dirs ?after = without (filepath_Join ''photos'' c) (entry_Name f0) (dirs w)"
        unfolding f0_def by (rule del(2))
      have gone: "filter (\<lambda>e. entry_Name e \<noteq> entry_Name f0) (matching ?id w c) = []"
        by (simp add: m)
      have "matching ?id ?after c' = []" if "c' \<in> set categories" for c'
      proof (cases "c' = c")
        case True
        with matching_without [OF d, where photoID = ?id and c' = c'] gone show ?thesis
          by simp
      next
        case False
        with matching_without [OF d, where photoID = ?id and c' = c'] others that show ?thesis
          by simp
      qed
      then have "find (\<lambda>c. matching ?id ?after c \<noteq> []) categories = None"
        by (simp add: find_None_all)
      then show ?thesis by (rule deletePhotoHandler_none(1))
    qed
    show ?thesis
      unfolding Let_def Some option.case using del again by blast
  qed
qed

text \<open>An instance: the only file of stem \<open>0a\<close> is deleted, and the second delete answers 404.\<close>

theorem delete_first_match_witness:
  "fst (deletePhotoHandler example_env (example_request\<lparr>req_Vars := [''id'' \<mapsto> ''0a'']\<rparr>)
          gallery_world) = respondWithJSON 200 deleted \<and>
   dirs (snd (deletePhotoHandler example_env (example_request\<lparr>req_Vars := [''id'' \<mapsto> ''0a'']\<rparr>)
          gallery_world)) = without ''photos/photography'' ''0a.jpg'' (dirs gallery_world) \<and>
   fst (deletePhotoHandler example_env (example_request\<lparr>req_Vars := [''id'' \<mapsto> ''0a'']\<rparr>)
          (snd (deletePhotoHandler example_env (example_request\<lparr>req_Vars := [''id'' \<mapsto> ''0a'']\<rparr>)
                  gallery_world))) = respondWithError 404 ''Photo not found''"
proof -
  have m: "matching ''0a'' gallery_world c =
      (if c = ''photography'' then [example_file ''0a.jpg''] else [])"
    if "c \<in> set categories" for c
    using that
    by (auto simp: categories_def matching_def gallery_world_def example_world_def
        filepath_Join_def example_file_def stem_def filepath_Ext_def TrimSuffix_def
        suffix_to_prefix)
  have f: "find (\<lambda>c. matching ''0a'' gallery_world c \<noteq> []) categories = Some ''photography''"
    by (simp add: categories_def m)
  have c: "concat (map (matching ''0a'' gallery_world) categories) = [example_file ''0a.jpg'']"
    by (simp add: categories_def m)
  show ?thesis
    using delete_first_match
      [where r = "example_request\<lparr>req_Vars := [''id'' \<mapsto> ''0a'']\<rparr>" and w = gallery_world
         and env = example_env and env' = example_env]
    by (simp add: Let_def lookup_string_def example_request_def f c m categories_def
        filepath_Join_def example_file_def)
qed

text \<open>The claim as stated fails when two files share the stem: with \<open>0a.jpg\<close> and \<open>0a.png\<close> in \<open>featured\<close> the second delete of \<open>0a\<close> answers 200 again.\<close>

theorem delete_twice_counterexample:
  "fst (deletePhotoHandler example_env (example_request\<lparr>req_Vars := [''id'' \<mapsto> ''0a'']\<rparr>)
          twin_world) = respondWithJSON 200 deleted \<and>
   fst (deletePhotoHandler example_env (example_request\<lparr>req_Vars := [''id'' \<mapsto> ''0a'']\<rparr>)
          (snd (deletePhotoHandler example_env (example_request\<lparr>req_Vars := [''id'' \<mapsto> ''0a'']\<rparr>)
                  twin_world))) = respondWithJSON 200 deleted"
proof -
  let ?r = "example_request\<lparr>req_Vars := [''id'' \<mapsto> ''0a'']\<rparr>"
  let ?after = "snd (deletePhotoHandler example_env ?r twin_world)"
  have m: "matching ''0a'' twin_world ''featured'' = [example_file ''0a.jpg'', example_file ''0a.png'']"
    by (simp add: matching_def twin_world_def example_world_def
        filepath_Join_def example_file_def stem_def filepath_Ext_def TrimSuffix_def
        suffix_to_prefix)
  then have f: "find (\<lambda>c. matching (lookup_string (req_Vars ?r) ''id'') twin_world c \<noteq> [])
      categories = Some ''featured''"
    by (simp add: lookup_string_def example_request_def categories_def)
  note first = deletePhotoHandler_some [OF f, of example_env]
  from first(2) m have d: "dirs ?after =
      without (filepath_Join ''photos'' ''featured'') ''0a.jpg'' (dirs twin_world)"
    by (simp add: lookup_string_def example_request_def example_file_def)
  have "matching ''0a'' ?after ''featured'' = [example_file ''0a.png'']"
    using matching_without [OF d, where photoID = "''0a''" and c' = "''featured''"] m
    by (simp add: example_file_def)
  then have "find (\<lambda>c. matching (lookup_string (req_Vars ?r) ''id'') ?after c \<noteq> [])
      categories = Some ''featured''"
    by (simp add: lookup_string_def example_request_def categories_def)
  from first(1) deletePhotoHandler_some(1) [OF this, of example_env] show ?thesis by simp
qed

text \<open>
  Claim C6. An upload to a valid category whose file part has a content type that does
  not begin with \<open>image/\<close> answers 400 and returns the state as it was: no file is
  created and no file-system call is made.
\<close>

theorem non_image_upload_rejected:
  assumes "req_Form r = Some form" and "validCategories (form_category form)"
    and "form_photo form = Some part" and "\<not> HasPrefix (part_ContentType part) ''image/''"
  shows "uploadPhotoHandler env r w = (respondWithError 400 ''File must be an image'', w)"
  using assms by (simp add: uploadPhotoHandler_def)

text \<open>An instance: a part of type \<open>text/plain\<close>.\<close>

theorem non_image_upload_rejected_witness:
  "uploadPhotoHandler example_env (example_request\<lparr>req_Form := Some text_form\<rparr>) example_world =
     (respondWithError 400 ''File must be an image'', example_world)"
  using non_image_upload_rejected
    [of "example_request\<lparr>req_Form := Some text_form\<rparr>" text_form
        "\<lparr>part_Filename = ''notes.txt'', part_ContentType = ''text/plain'', part_Bytes = [104, 105]\<rparr>"
        example_env example_world]
  by (simp add: example_request_def text_form_def validCategories_def HasPrefix_def)

text \<open>
  Claim C7. The category check holds exactly for the four names of \<open>valid_names\<close>; for a
  category outside them the upload and the listing answer 400 and return the state as
  it was, so that no file-system call is recorded.
\<close>

theorem invalid_category_rejected:
  "(validCategories category \<longleftrightarrow> category \<in> valid_names) \<and>
   (req_Form r = Some form \<and> form_category form \<notin> valid_names \<longrightarrow>
      uploadPhotoHandler env r w = (respondWithError 400 ''Invalid category'', w)) \<and>
   (lookup_string (req_Vars r') ''category'' \<notin> valid_names \<longrightarrow>
      getPhotosByCategoryHandler env r' w = (respondWithError 400 ''Invalid category'', w))"
  by (simp add: validCategories_iff uploadPhotoHandler_def getPhotosByCategoryHandler_def)

text \<open>An instance: the category \<open>videos\<close>.\<close>

theorem invalid_category_rejected_witness:
  "validCategories ''featured'' \<and> \<not> validCategories ''videos'' \<and>
   uploadPhotoHandler example_env
     (example_request\<lparr>req_Form := Some (example_form\<lparr>form_category := ''videos''\<rparr>)\<rparr>)
     example_world = (respondWithError 400 ''Invalid category'', example_world) \<and>
   getPhotosByCategoryHandler example_env
     (example_request\<lparr>req_Vars := [''category'' \<mapsto> ''videos'']\<rparr>) example_world =
     (respondWithError 400 ''Invalid category'', example_world)"
  using invalid_category_rejected
    [where category = "''videos''" and env = example_env and w = example_world
       and r = "example_request\<lparr>req_Form := Some (example_form\<lparr>form_category := ''videos''\<rparr>)\<rparr>"
       and form = "example_form\<lparr>form_category := ''videos''\<rparr>"
       and r' = "example_request\<lparr>req_Vars := [''category'' \<mapsto> ''videos'']\<rparr>"]
    invalid_category_rejected [where category = "''featured''"]
  by (simp add: valid_names_def lookup_string_def example_request_def example_form_def)

text \<open>
  Claim C8. The state an upload leaves does not depend on the title of the form, which
  the answer of a successful upload repeats. A listing of a valid category answers with
  one record per regular file of the directory, and the record of a file has the file
  name minus its extension as title and as id, and the file's modification time in the
  layout RFC3339 as upload date.
\<close>

theorem title_not_persisted:
  "snd (uploadPhotoHandler env (r\<lparr>req_Form := Some (form\<lparr>form_title := t1\<rparr>)\<rparr>) w) =
   snd (uploadPhotoHandler env (r\<lparr>req_Form := Some (form\<lparr>form_title := t2\<rparr>)\<rparr>) w) \<and>
   (\<forall>resp w1.
      uploadPhotoHandler env (r\<lparr>req_Form := Some (form\<lparr>form_title := t1\<rparr>)\<rparr>) w =
        (Responded 201 resp, w1) \<longrightarrow>
      (\<exists>p. Data resp = Photo p \<and> photo_Title p = t1)) \<and>
   (validCategories category \<and> lookup_string (req_Vars r') ''category'' = category \<and>
    dirs w' (filepath_Join ''photos'' category) = Some files \<longrightarrow>
      fst (getPhotosByCategoryHandler env' r' w') =
        respondWithJSON 200
          \<lparr>Success = True, Message = [], Token = [], User = None,
           Data = Photos (map (listed env' r' category) (filter (\<lambda>e. \<not> entry_IsDir e) files))\<rparr>) \<and>
   (\<forall>e. photo_Title (listed env' r' category e) = stem (entry_Name e) \<and>
        photo_ID (listed env' r' category e) = stem (entry_Name e) \<and>
        photo_UploadDate (listed env' r' category e) = RFC3339 env' (entry_ModTime e))"
proof -
  have "snd (uploadPhotoHandler env (r\<lparr>req_Form := Some (form\<lparr>form_title := t1\<rparr>)\<rparr>) w) =
   snd (uploadPhotoHandler env (r\<lparr>req_Form := Some (form\<lparr>form_title := t2\<rparr>)\<rparr>) w)"
    by (simp add: upload_ignores_title)
  moreover have "\<exists>p. Data resp = Photo p \<and> photo_Title p = t1"
    if "uploadPhotoHandler env (r\<lparr>req_Form := Some (form\<lparr>form_title := t1\<rparr>)\<rparr>) w =
        (Responded 201 resp, w1)" for resp w1
    using uploadPhotoHandler_201 [OF that] by auto
  moreover have "fst (getPhotosByCategoryHandler env' r' w') =
        respondWithJSON 200
          \<lparr>Success = True, Message = [], Token = [], User = None,
           Data = Photos (map (listed env' r' category) (filter (\<lambda>e. \<not> entry_IsDir e) files))\<rparr>"
    if "validCategories category" "lookup_string (req_Vars r') ''category'' = category"
      "dirs w' (filepath_Join ''photos'' category) = Some files"
    using getPhotos_200 [OF that, of env'] by simp
  ultimately show ?thesis by (simp add: listed_def)
qed

text \<open>An instance: two titles for one upload, and the listing of a directory with one file and one sub-directory.\<close>

theorem title_not_persisted_witness:
  "snd (uploadPhotoHandler example_env
     (example_request\<lparr>req_Form := Some (example_form\<lparr>form_title := ''Sunset''\<rparr>)\<rparr>) example_world) =
   snd (uploadPhotoHandler example_env
     (example_request\<lparr>req_Form := Some (example_form\<lparr>form_title := ''Dawn''\<rparr>)\<rparr>) example_world) \<and>
   (\<exists>p. Data (response (fst (uploadPhotoHandler example_env
       (example_request\<lparr>req_Form := Some (example_form\<lparr>form_title := ''Sunset''\<rparr>)\<rparr>)
       example_world))) = Photo p \<and> photo_Title p = ''Sunset'') \<and>
   fst (getPhotosByCategoryHandler example_env
     (example_request\<lparr>req_Vars := [''category'' \<mapsto> ''photography'']\<rparr>) gallery_world) =
     respondWithJSON 200
       \<lparr>Success = True, Message = [], Token = [], User = None,
        Data = Photos
          [\<lparr>photo_ID = ''0a'', photo_Filename = ''0a.jpg'', photo_Title = ''0a'',
            photo_Category = ''photography'',
            photo_URL = ''http://localhost:8080/photos/photography/0a.jpg'',
            photo_UploadDate = RFC3339 example_env (1700000000 * second)\<rparr>]\<rparr>"
proof -
  let ?up = "uploadPhotoHandler example_env
       (example_request\<lparr>req_Form := Some (example_form\<lparr>form_title := ''Sunset''\<rparr>)\<rparr>) example_world"
  have "\<exists>resp w1. ?up = (Responded 201 resp, w1)"
    by (simp add: uploadPhotoHandler_def example_request_def example_form_def example_world_def
        validCategories_def HasPrefix_def filepath_Join_def os_Create_def io_Copy_def called_def
        respondWithJSON_def Let_def)
  then obtain resp w1 where up: "?up = (Responded 201 resp, w1)" by blast
  then have sel: "response (fst ?up) = resp" by simp
  note t = title_not_persisted
    [where env = example_env and r = example_request and form = example_form
       and ?t1.0 = "''Sunset''" and ?t2.0 = "''Dawn''" and w = example_world
       and category = "''photography''" and w' = gallery_world and env' = example_env
       and r' = "example_request\<lparr>req_Vars := [''category'' \<mapsto> ''photography'']\<rparr>"
       and files = "[example_file ''0a.jpg'',
          \<lparr>entry_Name = ''raw'', entry_IsDir = True, entry_ModTime = 0, entry_Data = []\<rparr>]"]
  from t up have "\<exists>p. Data resp = Photo p \<and> photo_Title p = ''Sunset''" by blast
  with t sel show ?thesis
    by (simp add: validCategories_def lookup_string_def gallery_world_def example_world_def
      filepath_Join_def example_file_def listed_def stem_def filepath_Ext_def TrimSuffix_def
      suffix_to_prefix photoURL_def scheme_of_def example_request_def)
qed



text \<open>
  Claim C10. For a token that is signed with the server's key by an HMAC method, is
  not expired, and has no numeric \<open>user_id\<close> claim, the middleware panics: it answers
  nothing, and in particular not 401.
\<close>

theorem missing_user_id_panics:
  assumes "req_Authorization r = bearer @ [Compact j]"
    and "jws_Header j ''alg'' = Some (JString a)" and "a \<in> hmac_algs"
    and "jws_Signature j = HMAC a (jwtKey env) (jws_Header j) (jws_Claims j)"
    and "jws_Claims j ''exp'' = Some (JNumber e)" and "Now env < e * second"
    and "jws_Claims j ''nbf'' = None"
    and "\<forall>n. jws_Claims j ''user_id'' \<noteq> Some (JNumber n)"
  shows "authMiddleware env next r w = (Panicked, w)"
proof -
  have "Validate (jws_Claims j) (Now env)"
    using assms(5,6,7)
    by (simp add: Validate_def verifyExpiresAt_def verifyNotBefore_def parseNumericDate_def)
  with assms(2,3,4) have "jwt_Parse [Compact j] (keyFunc (jwtKey env)) (Now env) =
      Inr \<lparr>Method = SigningMethodHMAC a, Header = jws_Header j, Claims = jws_Claims j, Valid = True\<rparr>"
    by (intro jwt_Parse_ok)
  moreover have "\<not> e < Unix (Now env)" using assms(6) by (rule Unix_less)
  ultimately show ?thesis using assms(1,5,8)
    by (auto simp: authMiddleware_def bearer_prefix split: option.splits json.splits)
qed

text \<open>An instance: a token of the server's key whose only claim is \<open>exp\<close>.\<close>

theorem missing_user_id_panics_witness:
  "\<forall>handler w.
      authMiddleware example_env handler
        (example_request\<lparr>req_Authorization := bearer @ [Compact anonymous_token]\<rparr>) w =
      (Panicked, w)"
  using missing_user_id_panics
    [of "example_request\<lparr>req_Authorization := bearer @ [Compact anonymous_token]\<rparr>"
        anonymous_token "''HS256''" example_env 1800000000]
  by (simp add: anonymous_token_def example_env_def issued_header_def hmac_algs_def second_def)

end
